theory Spec2Isabelle
  imports Main "HOL-Library.Word"
begin

section \<open>JavaScript values and strings\<close>

text \<open>
  A JavaScript string is a sequence of UTF-16 code units. The literals of the source are
  ASCII; \<open>utf16\<close> writes them down.
\<close>

type_synonym code_unit = "16 word"
type_synonym jsstring = "code_unit list"

definition utf16 :: "string \<Rightarrow> jsstring" where
  "utf16 s = map of_char s"

text \<open>
  The values a row cell, a column of the store or an argument can hold. Numbers are
  restricted to the integers from \<open>- 2 ^ 53\<close> to \<open>2 ^ 53 - 1\<close>, a word of 54 bits read
  as a signed number (\<open>sint\<close>): a JavaScript number holds each of them exactly, and
  \<^verbatim>\<open>String\<close>, JSON and the database write each of them with the same decimal digits.
  None of the code modelled here computes with numbers.
\<close>

datatype jsval = JUndefined | JNull | JBool bool | JNum "54 word" | JStr jsstring

text \<open>JavaScript truthiness, as tested by \<^verbatim>\<open>!x\<close>, \<^verbatim>\<open>if (x)\<close> and \<^verbatim>\<open>x || y\<close>.\<close>

fun truthy :: "jsval \<Rightarrow> bool" where
  "truthy JUndefined = False"
| "truthy JNull = False"
| "truthy (JBool b) = b"
| "truthy (JNum n) = (n \<noteq> 0)"
| "truthy (JStr s) = (s \<noteq> [])"

text \<open>\<^verbatim>\<open>typeof x === 'string'\<close>\<close>

fun is_string :: "jsval \<Rightarrow> bool" where
  "is_string (JStr s) = True"
| "is_string v = False"

subsection \<open>Character classes of the regular expressions\<close>

text \<open>\<^verbatim>\<open>\d\<close>: the ten ASCII digits.\<close>

definition is_digit :: "code_unit \<Rightarrow> bool" where
  "is_digit c \<longleftrightarrow> 0x30 \<le> c \<and> c \<le> 0x39"

text \<open>
  \<^verbatim>\<open>[A-Z]\<close> under the \<^verbatim>\<open>i\<close> flag (no \<^verbatim>\<open>u\<close> flag): the 52 ASCII letters. Case
  folding without the \<^verbatim>\<open>u\<close> flag never maps a code unit above 127 to an ASCII one.
\<close>

definition is_letter :: "code_unit \<Rightarrow> bool" where
  "is_letter c \<longleftrightarrow> (0x41 \<le> c \<and> c \<le> 0x5A) \<or> (0x61 \<le> c \<and> c \<le> 0x7A)"

text \<open>\<^verbatim>\<open>[A-Z0-9]\<close> under the \<^verbatim>\<open>i\<close> flag.\<close>

definition is_alnum :: "code_unit \<Rightarrow> bool" where
  "is_alnum c \<longleftrightarrow> is_letter c \<or> is_digit c"

text \<open>
  \<^verbatim>\<open>\s\<close>, which is also what \<^verbatim>\<open>String.prototype.trim\<close> removes: the ECMAScript
  WhiteSpace and LineTerminator code points, all of them single code units.
\<close>

definition is_space :: "code_unit \<Rightarrow> bool" where
  "is_space c \<longleftrightarrow>
     (0x09 \<le> c \<and> c \<le> 0x0D) \<or> c = 0x20 \<or> c = 0xA0 \<or> c = 0x1680 \<or>
     (0x2000 \<le> c \<and> c \<le> 0x200A) \<or> c = 0x2028 \<or> c = 0x2029 \<or> c = 0x202F \<or>
     c = 0x205F \<or> c = 0x3000 \<or> c = 0xFEFF"

definition underscore :: code_unit where
  "underscore = 0x5F"

subsection \<open>String methods\<close>

text \<open>\<^verbatim>\<open>s.trim()\<close>\<close>

definition trim :: "jsstring \<Rightarrow> jsstring" where
  "trim s = rev (dropWhile is_space (rev (dropWhile is_space s)))"

text \<open>\<^verbatim>\<open>s.replace(/\s+/g, '')\<close>: every run of white space is replaced by nothing.\<close>

definition remove_spaces :: "jsstring \<Rightarrow> jsstring" where
  "remove_spaces s = filter (\<lambda>c. \<not> is_space c) s"

text \<open>
  \<^verbatim>\<open>s.toUpperCase()\<close> on the ASCII range: the 26 lower-case letters move to upper case,
  every other code unit is kept. The source applies it only to the capture group of
  \<^verbatim>\<open>/^([A-Z]\d+)/i\<close>, which holds ASCII letters and digits only
  (lemma \<open>match_code_prefix_ascii\<close>).
\<close>

definition upper_unit :: "code_unit \<Rightarrow> code_unit" where
  "upper_unit c = (if 0x61 \<le> c \<and> c \<le> 0x7A then c - 0x20 else c)"

definition toUpperCase :: "jsstring \<Rightarrow> jsstring" where
  "toUpperCase s = map upper_unit s"

section \<open>src/utils/uidGenerator.js\<close>

subsection \<open>The regular expressions\<close>

text \<open>
  \<^verbatim>\<open>str.match(/^([A-Z]\d+)/i)\<close>: \<open>None\<close> is the \<^verbatim>\<open>null\<close> of a failed match, \<open>Some g\<close>
  carries capture group 1. The group is one letter and the longest run of digits after
  it (\<^verbatim>\<open>\d+\<close> is greedy and nothing follows it in the pattern), which must not be empty.
\<close>

fun match_code_prefix :: "jsstring \<Rightarrow> jsstring option" where
  "match_code_prefix [] = None"
| "match_code_prefix (c # cs) =
     (if is_letter c \<and> takeWhile is_digit cs \<noteq> [] then Some (c # takeWhile is_digit cs)
      else None)"

text \<open>\<^verbatim>\<open>str.match(/^([A-Z]\d+)$/i)\<close>: the whole string is one letter and one or more digits.\<close>

fun match_code_whole :: "jsstring \<Rightarrow> jsstring option" where
  "match_code_whole [] = None"
| "match_code_whole (c # cs) =
     (if is_letter c \<and> cs \<noteq> [] \<and> list_all is_digit cs then Some (c # cs) else None)"

text \<open>
  \<^verbatim>\<open>/^[A-Z]\d+_[A-Z0-9]+$/i.test(str)\<close>: a letter, the digits after it (at least one; the
  underscore is no digit, so the run of digits is the longest one), an underscore, and
  one or more letters or digits up to the end of the string.
\<close>

fun test_uid_pattern :: "jsstring \<Rightarrow> bool" where
  "test_uid_pattern [] = False"
| "test_uid_pattern (c # cs) =
     (is_letter c \<and> takeWhile is_digit cs \<noteq> [] \<and>
      (case dropWhile is_digit cs of
         [] \<Rightarrow> False
       | u # rest \<Rightarrow> u = underscore \<and> rest \<noteq> [] \<and> list_all is_alnum rest))"

subsection \<open>extractPropertyCode, generateUID, isValidUID\<close>

text \<open>\<open>None\<close> is the \<^verbatim>\<open>null\<close> the functions return.\<close>

definition extractPropertyCode :: "jsval \<Rightarrow> jsstring option" where
  "extractPropertyCode propertyName =
     (if \<not> truthy propertyName \<or> \<not> is_string propertyName then None
      else (case propertyName of
              JStr s \<Rightarrow>
                (case match_code_prefix (trim s) of
                   Some g \<Rightarrow> Some (toUpperCase g)
                 | None \<Rightarrow>
                     (case match_code_whole (trim s) of
                        Some g \<Rightarrow> Some (toUpperCase g)
                      | None \<Rightarrow> None))
            | _ \<Rightarrow> None))"

text \<open>
  \<^verbatim>\<open>!propertyCode\<close> holds for \<^verbatim>\<open>null\<close> and for the empty string. The warnings written to
  the console are not modelled.
\<close>

definition generateUID :: "jsval \<Rightarrow> jsval \<Rightarrow> jsstring option" where
  "generateUID propertyName unitNumber =
     (case extractPropertyCode propertyName of
        None \<Rightarrow> None
      | Some propertyCode \<Rightarrow>
          (if propertyCode = [] then None
           else if \<not> truthy unitNumber \<or> \<not> is_string unitNumber then None
           else (case unitNumber of
                   JStr u \<Rightarrow> Some (propertyCode @ [underscore] @ remove_spaces (trim u))
                 | _ \<Rightarrow> None)))"

definition isValidUID :: "jsval \<Rightarrow> bool" where
  "isValidUID uid =
     (if \<not> truthy uid \<or> \<not> is_string uid then False
      else (case uid of JStr s \<Rightarrow> test_uid_pattern s | _ \<Rightarrow> False))"

subsection \<open>addUIDsToRows\<close>

text \<open>
  A row is an object of the CSV reader: its own properties, by column name. \<open>get_prop\<close> is
  the property read \<^verbatim>\<open>row[key]\<close>, which gives \<^verbatim>\<open>undefined\<close> for an absent column.
\<close>

type_synonym row = "jsstring \<rightharpoonup> jsval"

definition get_prop :: "row \<Rightarrow> jsstring \<Rightarrow> jsval" where
  "get_prop row key = (case row key of None \<Rightarrow> JUndefined | Some v \<Rightarrow> v)"

text \<open>The \<^verbatim>\<open>options\<close> argument; \<open>None\<close> is an option left out, which takes its default.\<close>

record options =
  opt_propertyNameColumn :: "jsstring option"
  opt_unitColumn :: "jsstring option"
  opt_uidColumn :: "jsstring option"

definition propertyNameColumn :: "options \<Rightarrow> jsstring" where
  "propertyNameColumn options =
     (case opt_propertyNameColumn options of None \<Rightarrow> utf16 ''Property Name'' | Some c \<Rightarrow> c)"

definition unitColumn :: "options \<Rightarrow> jsstring" where
  "unitColumn options = (case opt_unitColumn options of None \<Rightarrow> utf16 ''Unit'' | Some c \<Rightarrow> c)"

definition uidColumn :: "options \<Rightarrow> jsstring" where
  "uidColumn options = (case opt_uidColumn options of None \<Rightarrow> utf16 ''UID'' | Some c \<Rightarrow> c)"

text \<open>
  The function returns \<open>rowsWithUIDs\<close>; \<open>successCount\<close> and \<open>failCount\<close> are its two
  counters as the summary written to the console reports them.
\<close>

record annotated =
  rowsWithUIDs :: "row list"
  successCount :: nat
  failCount :: nat

text \<open>The value of \<^verbatim>\<open>uid\<close> as a JavaScript value.\<close>

definition uid_value :: "jsstring option \<Rightarrow> jsval" where
  "uid_value uid = (case uid of None \<Rightarrow> JNull | Some u \<Rightarrow> JStr u)"

text \<open>
  One call of the \<^verbatim>\<open>rows.map\<close> callback: the object spread \<^verbatim>\<open>{...row, [uidColumn]: v}\<close>
  copies the row and sets one property.
\<close>

definition annotate_row :: "options \<Rightarrow> row \<Rightarrow> annotated \<Rightarrow> annotated" where
  "annotate_row options row acc =
     (let propertyName = get_prop row (propertyNameColumn options);
          unitNumber = get_prop row (unitColumn options);
          uid = uid_value (generateUID propertyName unitNumber)
      in if truthy uid
         then acc\<lparr>rowsWithUIDs := rowsWithUIDs acc @ [row(uidColumn options \<mapsto> uid)],
                  successCount := successCount acc + 1\<rparr>
         else acc\<lparr>rowsWithUIDs := rowsWithUIDs acc @ [row(uidColumn options \<mapsto> JNull)],
                  failCount := failCount acc + 1\<rparr>)"

definition addUIDsToRows :: "row list \<Rightarrow> options \<Rightarrow> annotated" where
  "addUIDsToRows rows options =
     fold (annotate_row options) rows \<lparr>rowsWithUIDs = [], successCount = 0, failCount = 0\<rparr>"

text \<open>
  The two notions the accounting is stated with: the row the callback emits for an input
  row, and the rows for which the derivation gives \<^verbatim>\<open>null\<close>.
\<close>

definition annotate_one :: "options \<Rightarrow> row \<Rightarrow> row" where
  "annotate_one options row =
     row(uidColumn options \<mapsto>
       uid_value (generateUID (get_prop row (propertyNameColumn options))
                               (get_prop row (unitColumn options))))"

definition derivation_fails :: "options \<Rightarrow> row \<Rightarrow> bool" where
  "derivation_fails options row \<longleftrightarrow>
     generateUID (get_prop row (propertyNameColumn options))
                 (get_prop row (unitColumn options)) = None"

section \<open>src/services/upsert.js\<close>

subsection \<open>Chunks, documents and the store interface\<close>

text \<open>
  A chunk is a document of the text pipeline: its text and its metadata object
  (\<open>None\<close>: no metadata, which \<^verbatim>\<open>chunk.metadata?.UID\<close> allows for). An embedding is a
  vector of the provider; its type \<open>'v\<close> is left open.
\<close>

record chunk =
  pageContent :: jsstring
  chunk_metadata :: "row option"

text \<open>
  The object built for each chunk and handed to \<^verbatim>\<open>insert\<close>. \<open>embedding\<close> is \<open>None\<close> when
  \<^verbatim>\<open>embeddings_list[idx]\<close> is \<^verbatim>\<open>undefined\<close>.
\<close>

record 'v document =
  content :: jsstring
  embedding :: "'v option"
  metadata :: "row option"
  source :: jsstring
  chunk_index :: nat
  uid :: jsval

text \<open>The object handed to \<^verbatim>\<open>update\<close>; a time is a number of milliseconds.\<close>

record 'v changes =
  new_content :: jsstring
  new_embedding :: "'v option"
  new_metadata :: "row option"
  new_uid :: jsval
  new_updated_at :: nat

text \<open>
  What awaiting a request to the store gives: the promise is rejected, or it resolves to
  \<^verbatim>\<open>{ data, error }\<close> (a read) or \<^verbatim>\<open>{ error }\<close> (a write), in which \<open>None\<close> is \<^verbatim>\<open>null\<close>.
  The store is free to answer with any of them. An error \<open>'e\<close> is an error object of
  the client: it is truthy, and the \<^verbatim>\<open>catch\<close> block can read its message.
\<close>

datatype ('e, 'i) select_reply = SelectRejected 'e | SelectResolved "'i list option" "'e option"

datatype 'e write_reply = WriteRejected 'e | WriteResolved "'e option"

text \<open>
  The store client and the clock, as the four effects of the loop, over a state \<open>'w\<close> of
  the world outside the function:
  \<^item> \<open>select_ids uid source\<close> is
    \<^verbatim>\<open>from('units_vacancy').select('id').eq('metadata->>UID', uid).eq('source', source).limit(1)\<close>;
  \<^item> \<open>update_id changes id\<close> is \<^verbatim>\<open>from('units_vacancy').update(changes).eq('id', id)\<close>;
  \<^item> \<open>insert_document doc\<close> is \<^verbatim>\<open>from('units_vacancy').insert(doc)\<close>;
  \<^item> \<open>date_now\<close> is \<^verbatim>\<open>new Date()\<close>.
\<close>

record ('w, 'e, 'i, 'v) store =
  select_ids :: "jsval \<Rightarrow> jsstring \<Rightarrow> 'w \<Rightarrow> ('e, 'i) select_reply \<times> 'w"
  update_id :: "'v changes \<Rightarrow> 'i \<Rightarrow> 'w \<Rightarrow> 'e write_reply \<times> 'w"
  insert_document :: "'v document \<Rightarrow> 'w \<Rightarrow> 'e write_reply \<times> 'w"
  date_now :: "'w \<Rightarrow> nat \<times> 'w"

record counts =
  inserted :: nat
  updated :: nat
  failed :: nat

subsection \<open>upsertDocumentsWithUID\<close>

text \<open>\<^verbatim>\<open>xs[idx]\<close>, which is \<^verbatim>\<open>undefined\<close> past the end of the array.\<close>

definition at_index :: "'a list \<Rightarrow> nat \<Rightarrow> 'a option" where
  "at_index xs idx = (if idx < length xs then Some (xs ! idx) else None)"

text \<open>\<^verbatim>\<open>chunk.metadata?.UID || null\<close>\<close>

definition chunk_uid :: "chunk \<Rightarrow> jsval" where
  "chunk_uid chunk =
     (let v = (case chunk_metadata chunk of None \<Rightarrow> JUndefined
               | Some m \<Rightarrow> get_prop m (utf16 ''UID''))
      in if truthy v then v else JNull)"

definition make_document :: "'v list \<Rightarrow> jsstring \<Rightarrow> nat \<times> chunk \<Rightarrow> 'v document" where
  "make_document embeddings_list src ic =
     (case ic of (idx, chunk) \<Rightarrow>
        \<lparr>content = pageContent chunk,
         embedding = at_index embeddings_list idx,
         metadata = chunk_metadata chunk,
         source = src,
         chunk_index = idx,
         uid = chunk_uid chunk\<rparr>)"

definition make_documents :: "chunk list \<Rightarrow> 'v list \<Rightarrow> jsstring \<Rightarrow> 'v document list" where
  "make_documents chunks embeddings_list src =
     map (make_document embeddings_list src) (enumerate 0 chunks)"

text \<open>A write and the \<^verbatim>\<open>if (error) throw error\<close> after it: \<open>Inl\<close> is the exception.\<close>

definition write_outcome :: "'e write_reply \<Rightarrow> 'e + unit" where
  "write_outcome r =
     (case r of WriteRejected e \<Rightarrow> Inl e
      | WriteResolved None \<Rightarrow> Inr ()
      | WriteResolved (Some e) \<Rightarrow> Inl e)"

text \<open>
  The body of the \<^verbatim>\<open>try\<close> block for one document. \<open>Inl e\<close>: the block was left by the
  exception \<open>e\<close>, with the counters as they were; \<open>Inr c\<close>: it ran to its end with the
  counters \<open>c\<close>.
\<close>

definition try_upsert ::
  "('w, 'e, 'i, 'v) store \<Rightarrow> jsstring \<Rightarrow> 'v document \<Rightarrow> counts \<Rightarrow> 'w \<Rightarrow> ('e + counts) \<times> 'w"
where
  "try_upsert st src doc c w =
     (if truthy (uid doc) then
        (case select_ids st (uid doc) src w of
           (SelectRejected e, w1) \<Rightarrow> (Inl e, w1)
         | (SelectResolved existing fetchError, w1) \<Rightarrow>
             (case fetchError of
                Some e \<Rightarrow> (Inl e, w1)
              | None \<Rightarrow>
                  (case existing of
                     Some (first # others) \<Rightarrow>
                       (case date_now st w1 of (now, w2) \<Rightarrow>
                          (case update_id st
                                  \<lparr>new_content = content doc, new_embedding = embedding doc,
                                   new_metadata = metadata doc, new_uid = uid doc,
                                   new_updated_at = now\<rparr> first w2 of
                             (r, w3) \<Rightarrow>
                               (case write_outcome r of
                                  Inl e \<Rightarrow> (Inl e, w3)
                                | Inr u \<Rightarrow> (Inr (c\<lparr>updated := updated c + 1\<rparr>), w3))))
                   | _ \<Rightarrow>
                       (case insert_document st doc w1 of
                          (r, w2) \<Rightarrow>
                            (case write_outcome r of
                               Inl e \<Rightarrow> (Inl e, w2)
                             | Inr u \<Rightarrow> (Inr (c\<lparr>inserted := inserted c + 1\<rparr>), w2))))))
      else
        (case insert_document st doc w of
           (r, w1) \<Rightarrow>
             (case write_outcome r of
                Inl e \<Rightarrow> (Inl e, w1)
              | Inr u \<Rightarrow> (Inr (c\<lparr>inserted := inserted c + 1\<rparr>), w1))))"

text \<open>One turn of the \<^verbatim>\<open>for\<close> loop: the \<^verbatim>\<open>try\<close> block and its \<^verbatim>\<open>catch\<close>.\<close>

definition upsert_document ::
  "('w, 'e, 'i, 'v) store \<Rightarrow> jsstring \<Rightarrow> 'v document \<Rightarrow> counts \<times> 'w \<Rightarrow> counts \<times> 'w"
where
  "upsert_document st src doc cw =
     (case cw of (c, w) \<Rightarrow>
        (case try_upsert st src doc c w of
           (Inl e, w') \<Rightarrow> (c\<lparr>failed := failed c + 1\<rparr>, w')
         | (Inr c', w') \<Rightarrow> (c', w')))"

definition upsert_loop ::
  "('w, 'e, 'i, 'v) store \<Rightarrow> jsstring \<Rightarrow> 'v document list \<Rightarrow> counts \<times> 'w \<Rightarrow> counts \<times> 'w"
where
  "upsert_loop st src documents cw = fold (upsert_document st src) documents cw"

text \<open>The function returns the counters; the state of the world is returned with them.\<close>

definition upsertDocumentsWithUID ::
  "('w, 'e, 'i, 'v) store \<Rightarrow> chunk list \<Rightarrow> 'v list \<Rightarrow> jsstring \<Rightarrow> 'w \<Rightarrow> counts \<times> 'w"
where
  "upsertDocumentsWithUID st chunks embeddings_list src w =
     upsert_loop st src (make_documents chunks embeddings_list src)
       (\<lparr>inserted = 0, updated = 0, failed = 0\<rparr>, w)"

subsection \<open>Store errors\<close>

text \<open>
  An answer of the store that is an error: the promise is rejected, or it resolves with
  an error in it.
\<close>

definition select_error :: "('e, 'i) select_reply \<Rightarrow> bool" where
  "select_error r = (case r of SelectRejected e \<Rightarrow> True | SelectResolved d err \<Rightarrow> err \<noteq> None)"

definition write_error :: "'e write_reply \<Rightarrow> bool" where
  "write_error r = (case r of WriteRejected e \<Rightarrow> True | WriteResolved err \<Rightarrow> err \<noteq> None)"

text \<open>The object the loop hands to \<^verbatim>\<open>update\<close> for a document, at a time of the clock.\<close>

definition doc_changes :: "'v document \<Rightarrow> nat \<Rightarrow> 'v changes" where
  "doc_changes doc now =
     \<lparr>new_content = content doc, new_embedding = embedding doc,
      new_metadata = metadata doc, new_uid = uid doc, new_updated_at = now\<rparr>"

text \<open>
  The lookup or the write for a document gets a store error, in the state \<open>w\<close> of the
  world: the lookup of a document with an identifier is answered with an error; or it
  is answered with records and the update of the first of them is answered with an
  error; or it is answered with no record and the insertion is; or the insertion of a
  document without an identifier is. This is stated from the answers of the store
  alone, not from what the loop does with them.
\<close>

definition lookup_or_write_fails ::
  "('w, 'e, 'i, 'v) store \<Rightarrow> jsstring \<Rightarrow> 'v document \<Rightarrow> 'w \<Rightarrow> bool"
where
  "lookup_or_write_fails st src doc w =
     (if truthy (uid doc) then
        (case select_ids st (uid doc) src w of (r, w1) \<Rightarrow>
           select_error r \<or>
           (case r of
              SelectResolved (Some (first # others)) err \<Rightarrow>
                (case date_now st w1 of (now, w2) \<Rightarrow>
                   write_error (fst (update_id st (doc_changes doc now) first w2)))
            | _ \<Rightarrow> write_error (fst (insert_document st doc w1))))
      else write_error (fst (insert_document st doc w)))"

section \<open>The table \<^verbatim>\<open>units_vacancy\<close> (supabase/schema.sql)\<close>

text \<open>
  A store that behaves as the schema says, for the three requests of the loop. A record
  of the table has the columns of a document and the three columns the database fills
  in: the primary key (\<^verbatim>\<open>gen_random_uuid()\<close>, here the next unused number) and the two
  timestamps (\<^verbatim>\<open>DEFAULT NOW()\<close>).
\<close>

record 'v stored = "'v document" +
  row_id :: nat
  created_at :: nat
  updated_at :: nat

text \<open>
  A request can fail: \<open>Rejects e\<close> rejects the promise, \<open>Errors e\<close> resolves it with the
  error \<open>e\<close>. \<open>faults\<close> lists what happens to the coming requests, one entry for each,
  \<open>None\<close> for a request that is served; past the end of the list every request is
  served. A request that fails leaves the table as it is. Each request takes one unit
  of time.

  The lookup has a \<^verbatim>\<open>limit(1)\<close> and no order: of several records that match, the
  database returns any one. \<open>picks\<close> lists, for the coming lookups that are served,
  which one it is: the number of the record among those that match, counted round;
  past the end of the list it is the first.
\<close>

datatype 'e fault = Rejects 'e | Errors 'e

record ('e, 'v) world =
  table :: "'v stored list"
  next_id :: nat
  clock :: nat
  faults :: "'e fault option list"
  picks :: "nat list"

definition begin_request :: "('e, 'v) world \<Rightarrow> 'e fault option \<times> ('e, 'v) world" where
  "begin_request w =
     (case faults w of
        [] \<Rightarrow> (None, w\<lparr>clock := clock w + 1\<rparr>)
      | f # fs \<Rightarrow> (f, w\<lparr>clock := clock w + 1, faults := fs\<rparr>))"

text \<open>The decimal digits of a number.\<close>

function decimal :: "nat \<Rightarrow> jsstring" where
  "decimal n = (if n < 10 then [of_nat (48 + n)] else decimal (n div 10) @ [of_nat (48 + n mod 10)])"
  by pat_completeness auto
termination
  by (relation "measure id") auto

text \<open>
  The text of a value: what \<^verbatim>\<open>String(v)\<close> gives, which is what the client puts into the
  filter \<^verbatim>\<open>eq.v\<close>.
\<close>

fun js_text :: "jsval \<Rightarrow> jsstring" where
  "js_text JUndefined = utf16 ''undefined''"
| "js_text JNull = utf16 ''null''"
| "js_text (JBool b) = (if b then utf16 ''true'' else utf16 ''false'')"
| "js_text (JNum n) =
     (if sint n < 0 then utf16 ''-'' @ decimal (nat (- sint n)) else decimal (nat (sint n)))"
| "js_text (JStr s) = s"

text \<open>
  \<^verbatim>\<open>metadata->>'UID'\<close>: the member of the JSON object as text; SQL \<^verbatim>\<open>NULL\<close> (\<open>None\<close>) when
  the column is \<^verbatim>\<open>NULL\<close>, the object has no such member (a member whose value is
  \<^verbatim>\<open>undefined\<close> is not written to JSON) or the member is \<^verbatim>\<open>null\<close>.
\<close>

definition metadata_uid_text :: "row option \<Rightarrow> jsstring option" where
  "metadata_uid_text m =
     (case m of
        None \<Rightarrow> None
      | Some obj \<Rightarrow>
          (case get_prop obj (utf16 ''UID'') of
             JUndefined \<Rightarrow> None
           | JNull \<Rightarrow> None
           | v \<Rightarrow> Some (js_text v)))"

text \<open>The \<^verbatim>\<open>WHERE\<close> clause of the lookup. A comparison with \<^verbatim>\<open>NULL\<close> selects nothing.\<close>

definition matches :: "jsval \<Rightarrow> jsstring \<Rightarrow> ('v, 'z) stored_scheme \<Rightarrow> bool" where
  "matches u src r \<longleftrightarrow> metadata_uid_text (metadata r) = Some (js_text u) \<and> source r = src"

text \<open>\<^verbatim>\<open>LIMIT 1\<close>: no record of none, else the record with the number \<open>k\<close>, counted round.\<close>

definition pick :: "nat \<Rightarrow> 'a list \<Rightarrow> 'a list" where
  "pick k xs = (if xs = [] then [] else [xs ! (k mod length xs)])"

definition coming_pick :: "('e, 'v) world \<Rightarrow> nat" where
  "coming_pick w = (case picks w of [] \<Rightarrow> 0 | k # ks \<Rightarrow> k)"

definition db_select ::
  "jsval \<Rightarrow> jsstring \<Rightarrow> ('e, 'v) world \<Rightarrow> ('e, nat) select_reply \<times> ('e, 'v) world"
where
  "db_select u src w =
     (case begin_request w of
        (Some (Rejects e), w') \<Rightarrow> (SelectRejected e, w')
      | (Some (Errors e), w') \<Rightarrow> (SelectResolved None (Some e), w')
      | (None, w') \<Rightarrow>
          (SelectResolved
             (Some (map row_id (pick (coming_pick w') (filter (matches u src) (table w')))))
             None,
           w'\<lparr>picks := tl (picks w')\<rparr>))"

text \<open>
  \<^verbatim>\<open>UPDATE\<close> sets the columns named in the request in every record with the given key;
  the trigger \<^verbatim>\<open>update_documents_updated_at\<close> then puts the time of the database into
  \<^verbatim>\<open>updated_at\<close>. The request is sent as JSON, which has no \<^verbatim>\<open>undefined\<close>: a property
  of the object whose value is \<^verbatim>\<open>undefined\<close> (\<open>None\<close> for the embedding and the metadata)
  is not in the request, and its column stays as it is.
\<close>

definition apply_changes :: "'v changes \<Rightarrow> nat \<Rightarrow> 'v stored \<Rightarrow> 'v stored" where
  "apply_changes ch now r =
     (r\<lparr>content := new_content ch,
        embedding := (case new_embedding ch of None \<Rightarrow> embedding r | Some v \<Rightarrow> Some v),
        metadata := (case new_metadata ch of None \<Rightarrow> metadata r | Some m \<Rightarrow> Some m),
        uid := (if new_uid ch = JUndefined then uid r else new_uid ch),
        updated_at := new_updated_at ch\<rparr>)\<lparr>updated_at := now\<rparr>"

definition db_update ::
  "'v changes \<Rightarrow> nat \<Rightarrow> ('e, 'v) world \<Rightarrow> 'e write_reply \<times> ('e, 'v) world"
where
  "db_update ch i w =
     (case begin_request w of
        (Some (Rejects e), w') \<Rightarrow> (WriteRejected e, w')
      | (Some (Errors e), w') \<Rightarrow> (WriteResolved (Some e), w')
      | (None, w') \<Rightarrow>
          (WriteResolved None,
           w'\<lparr>table := map (\<lambda>r. if row_id r = i then apply_changes ch (clock w') r else r)
                           (table w')\<rparr>))"

text \<open>
  \<^verbatim>\<open>INSERT\<close>: a column whose property is \<^verbatim>\<open>undefined\<close>, and so not in the request, is
  \<^verbatim>\<open>NULL\<close> (\<open>None\<close>). The column \<^verbatim>\<open>uid\<close> is kept as the value that was sent; the database
  holds the text of it.
\<close>

definition new_record :: "'v document \<Rightarrow> nat \<Rightarrow> nat \<Rightarrow> 'v stored" where
  "new_record doc i now =
     \<lparr>content = content doc, embedding = embedding doc, metadata = metadata doc,
      source = source doc, chunk_index = chunk_index doc, uid = uid doc,
      row_id = i, created_at = now, updated_at = now\<rparr>"

definition db_insert ::
  "'v document \<Rightarrow> ('e, 'v) world \<Rightarrow> 'e write_reply \<times> ('e, 'v) world"
where
  "db_insert doc w =
     (case begin_request w of
        (Some (Rejects e), w') \<Rightarrow> (WriteRejected e, w')
      | (Some (Errors e), w') \<Rightarrow> (WriteResolved (Some e), w')
      | (None, w') \<Rightarrow>
          (WriteResolved None,
           w'\<lparr>table := table w' @ [new_record doc (next_id w') (clock w')],
              next_id := next_id w' + 1\<rparr>))"

definition units_vacancy :: "(('e, 'v) world, 'e, nat, 'v) store" where
  "units_vacancy =
     \<lparr>select_ids = db_select, update_id = db_update,
      insert_document = db_insert, date_now = (\<lambda>w. (clock w, w))\<rparr>"

text \<open>The primary key: no two records share one, and \<open>next_id\<close> is not in use.\<close>

definition keys_ok :: "('e, 'v) world \<Rightarrow> bool" where
  "keys_ok w \<longleftrightarrow> distinct (map row_id (table w)) \<and> list_all (\<lambda>r. row_id r < next_id w) (table w)"

text \<open>\<open>served n w\<close>: the next \<open>n\<close> requests to the store are served.\<close>

definition served :: "nat \<Rightarrow> ('e, 'v) world \<Rightarrow> bool" where
  "served n w \<longleftrightarrow> list_all (\<lambda>f. f = None) (take n (faults w))"

text \<open>The world after a request that was served, before its effect on the table.\<close>

definition after_request :: "('e, 'v) world \<Rightarrow> ('e, 'v) world" where
  "after_request w = w\<lparr>clock := clock w + 1, faults := tl (faults w)\<rparr>"

text \<open>The world after a lookup that was served.\<close>

definition after_lookup :: "('e, 'v) world \<Rightarrow> ('e, 'v) world" where
  "after_lookup w = (after_request w)\<lparr>picks := tl (picks w)\<rparr>"

text \<open>A record after an update with a document, at the time \<open>t\<close> of the database.\<close>

definition rewritten :: "'v document \<Rightarrow> nat \<Rightarrow> 'v stored \<Rightarrow> 'v stored" where
  "rewritten doc t x =
     x\<lparr>content := content doc,
       embedding := (case embedding doc of None \<Rightarrow> embedding x | Some v \<Rightarrow> Some v),
       metadata := (case metadata doc of None \<Rightarrow> metadata x | Some m \<Rightarrow> Some m),
       uid := (if uid doc = JUndefined then uid x else uid doc),
       updated_at := t\<rparr>"

definition total :: "counts \<Rightarrow> nat" where
  "total c = inserted c + updated c + failed c"

section \<open>Requests to the embedding provider\<close>

text \<open>
  \<^verbatim>\<open>embeddings.embedDocuments(texts)\<close>, awaited: the vectors of the texts, or an exception
  (\<open>Inl\<close>), over a state \<open>'p\<close> of the provider.
\<close>

type_synonym ('p, 'e, 'v) provider = "jsstring list \<Rightarrow> 'p \<Rightarrow> ('e + 'v list) \<times> 'p"

subsection \<open>generateEmbeddings (src/services/ingestion.js)\<close>

text \<open>
  The \<^verbatim>\<open>for\<close> loop, \<open>i\<close> being its counter: \<^verbatim>\<open>chunks.slice(i, i + batchSize)\<close> is
  \<open>take batchSize (drop i chunks)\<close>, and the \<^verbatim>\<open>catch\<close> throws the exception again. With a
  \<open>batchSize\<close> of 0 the counter does not move; \<open>None\<close> is the loop that never ends.
\<close>

partial_function (option) embedding_loop ::
  "('p, 'e, 'v) provider \<Rightarrow> chunk list \<Rightarrow> nat \<Rightarrow> nat \<Rightarrow> 'v list \<Rightarrow> 'p \<Rightarrow>
   (('e + 'v list) \<times> 'p) option"
where
  "embedding_loop embedDocuments chunks batchSize i embeddings_list p =
     (if i < length chunks then
        (case embedDocuments (map pageContent (take batchSize (drop i chunks))) p of
           (Inl e, p') \<Rightarrow> Some (Inl e, p')
         | (Inr batchEmbeddings, p') \<Rightarrow>
             embedding_loop embedDocuments chunks batchSize (i + batchSize)
               (embeddings_list @ batchEmbeddings) p')
      else Some (Inr embeddings_list, p))"

definition generateEmbeddings ::
  "('p, 'e, 'v) provider \<Rightarrow> chunk list \<Rightarrow> nat \<Rightarrow> 'p \<Rightarrow> (('e + 'v list) \<times> 'p) option" where
  "generateEmbeddings embedDocuments chunks batchSize p =
     embedding_loop embedDocuments chunks batchSize 0 [] p"

text \<open>The default of the parameter, which the one call of the function takes.\<close>

definition default_batchSize :: nat where
  "default_batchSize = 50"

subsection \<open>processAndUpsertCSV (src/services/upsert.js), steps 4 and 5\<close>

text \<open>
  The function from its chunks on (one chunk for each row that has an identifier): the
  texts of all chunks go to the provider in one request, and the chunks with their
  vectors to \<open>upsertDocumentsWithUID\<close>. An exception of the provider leaves the function
  (\<open>Inl\<close>). Of the object the function returns, the three counters are kept.
\<close>

definition processAndUpsertCSV_from_chunks ::
  "('w, 'e, 'i, 'v) store \<Rightarrow> ('p, 'e, 'v) provider \<Rightarrow> chunk list \<Rightarrow> jsstring \<Rightarrow> 'p \<times> 'w \<Rightarrow>
   ('e + counts) \<times> 'p \<times> 'w"
where
  "processAndUpsertCSV_from_chunks st embedDocuments chunks src pw =
     (case pw of (p, w) \<Rightarrow>
        (let texts = map pageContent chunks in
         case embedDocuments texts p of
           (Inl e, p') \<Rightarrow> (Inl e, p', w)
         | (Inr embeddings_list, p') \<Rightarrow>
             (case upsertDocumentsWithUID st chunks embeddings_list src w of
                (result, w') \<Rightarrow> (Inr result, p', w'))))"

subsection \<open>Observing the requests\<close>

text \<open>
  A provider that keeps, next to its own state, the list of the requests it has received,
  each with its answer.
\<close>

type_synonym ('e, 'v) call = "jsstring list \<times> ('e + 'v list)"

definition recording ::
  "('p, 'e, 'v) provider \<Rightarrow> ('p \<times> ('e, 'v) call list, 'e, 'v) provider" where
  "recording embedDocuments texts pl =
     (case pl of (p, calls) \<Rightarrow>
        (case embedDocuments texts p of (r, p') \<Rightarrow> (r, (p', calls @ [(texts, r)]))))"

definition vectors :: "'e + 'v list \<Rightarrow> 'v list" where
  "vectors r = (case r of Inl e \<Rightarrow> [] | Inr vs \<Rightarrow> vs)"

text \<open>A provider for the examples: the vector of a text is its length.\<close>

definition length_provider :: "(unit, unit, nat) provider" where
  "length_provider texts p = (Inr (map length texts), p)"

section \<open>Example data\<close>

text \<open>The options left out, two rows of a CSV file, a chunk and an empty table.\<close>

definition no_options :: options where
  "no_options = \<lparr>opt_propertyNameColumn = None, opt_unitColumn = None, opt_uidColumn = None\<rparr>"

definition row_maple :: row where
  "row_maple =
     [utf16 ''Property Name'' \<mapsto> JStr (utf16 ''S0002 - 101 Maple''),
      utf16 ''Unit'' \<mapsto> JStr (utf16 ''D2''),
      utf16 ''Rent'' \<mapsto> JStr (utf16 ''900'')]"

definition row_unlabelled :: row where
  "row_unlabelled =
     [utf16 ''Property Name'' \<mapsto> JStr (utf16 ''101 Maple''),
      utf16 ''Unit'' \<mapsto> JStr (utf16 ''D2'')]"

definition chunk_d2 :: chunk where
  "chunk_d2 =
     \<lparr>pageContent = utf16 ''Unit: D2'',
      chunk_metadata = Some [utf16 ''UID'' \<mapsto> JStr (utf16 ''S0002_D2'')]\<rparr>"

definition chunk_plain :: chunk where
  "chunk_plain = \<lparr>pageContent = utf16 ''a note'', chunk_metadata = Some Map.empty\<rparr>"

definition empty_table :: "(unit, nat) world" where
  "empty_table = \<lparr>table = [], next_id = 0, clock = 0, faults = [], picks = []\<rparr>"

text \<open>The empty table of a store whose next request fails.\<close>

definition failing_once :: "(unit, nat) world" where
  "failing_once =
     \<lparr>table = [], next_id = 0, clock = 0, faults = [Some (Errors ())], picks = []\<rparr>"

definition units_csv :: jsstring where
  "units_csv = utf16 ''units.csv''"

text \<open>The table after the chunk \<open>chunk_d2\<close> of \<open>units_csv\<close> has been inserted into it.\<close>

definition holding_d2 :: "(unit, nat) world" where
  "holding_d2 =
     \<lparr>table = [new_record (make_document [7] units_csv (0, chunk_d2)) 0 2],
      next_id = 1, clock = 2, faults = [], picks = []\<rparr>"

text \<open>The same table, of a store that serves the next lookup and rejects the next write.\<close>

definition holding_d2_rejecting :: "(unit, nat) world" where
  "holding_d2_rejecting = holding_d2\<lparr>faults := [None, Some (Rejects ())]\<rparr>"

text \<open>
  A table that holds two records for the chunk, as two runs at the same time leave it,
  of a store that returns the first of them to the next lookup and the second to the
  lookup after it.
\<close>

definition holding_d2_twice :: "(unit, nat) world" where
  "holding_d2_twice =
     \<lparr>table = [new_record (make_document [7] units_csv (0, chunk_d2)) 0 2,
               new_record (make_document [9] units_csv (0, chunk_d2)) 1 2],
      next_id = 2, clock = 2, faults = [], picks = [0, 1]\<rparr>"

section \<open>Properties of the identifier functions\<close>

subsection \<open>Characters and matches\<close>

lemma upper_unit_digit: "is_digit c \<Longrightarrow> upper_unit c = c"
  by (auto simp: is_digit_def upper_unit_def word_le_nat_alt)

lemma upper_unit_letter: "is_letter c \<Longrightarrow> is_letter (upper_unit c)"
  by (auto simp: is_letter_def upper_unit_def word_le_nat_alt unat_sub)

lemma underscore_not_digit: "\<not> is_digit underscore"
  by (simp add: is_digit_def underscore_def)

lemma toUpperCase_Cons: "toUpperCase (c # cs) = upper_unit c # toUpperCase cs"
  by (simp add: toUpperCase_def)

lemma toUpperCase_digits: "list_all is_digit ds \<Longrightarrow> toUpperCase ds = ds"
  by (induction ds) (auto simp: toUpperCase_def upper_unit_digit)

lemma takeWhile_digits_run:
  "list_all is_digit ds \<Longrightarrow> rest = [] \<or> \<not> is_digit (hd rest) \<Longrightarrow>
   takeWhile is_digit (ds @ rest) = ds"
  by (induction ds) (auto simp: takeWhile_eq_Nil_iff neq_Nil_conv)

text \<open>The capture group holds ASCII letters and digits only.\<close>

lemma match_code_prefix_ascii:
  "match_code_prefix s = Some g \<Longrightarrow>
   \<exists>c ds. g = c # ds \<and> is_letter c \<and> ds \<noteq> [] \<and> list_all is_digit ds"
  by (cases s) (auto split: if_splits simp: list_all_iff dest: set_takeWhileD)

text \<open>The second pattern of \<open>extractPropertyCode\<close> never matches where the first did not.\<close>

lemma match_code_whole_after_prefix:
  "match_code_prefix s = None \<Longrightarrow> match_code_whole s = None"
  by (cases s) (auto simp: takeWhile_eq_Nil_iff list_all_iff neq_Nil_conv)

lemma match_code_prefix_None_iff:
  "match_code_prefix s = None \<longleftrightarrow>
   \<not> (\<exists>c d rest. s = c # d # rest \<and> is_letter c \<and> is_digit d)"
  by (cases s) (auto simp: takeWhile_eq_Nil_iff neq_Nil_conv)

lemma remove_spaces_trim: "remove_spaces (trim s) = remove_spaces s"
proof -
  let ?keep = "\<lambda>c. \<not> is_space c"
  have lead: "filter ?keep (dropWhile is_space xs) = filter ?keep xs" for xs
    by (induction xs) auto
  have "filter ?keep (rev (dropWhile is_space (rev (dropWhile is_space s))))
        = rev (filter ?keep (dropWhile is_space (rev (dropWhile is_space s))))"
    by (simp only: rev_filter)
  also have "\<dots> = rev (filter ?keep (rev (dropWhile is_space s)))"
    by (simp only: lead)
  also have "\<dots> = filter ?keep (dropWhile is_space s)"
    by (simp add: rev_filter)
  also have "\<dots> = filter ?keep s"
    by (simp only: lead)
  finally show ?thesis by (simp add: remove_spaces_def trim_def)
qed

subsection \<open>extractPropertyCode\<close>

lemma extractPropertyCode_nonstring: "\<not> is_string v \<Longrightarrow> extractPropertyCode v = None"
  by (simp add: extractPropertyCode_def)

lemma extractPropertyCode_JStr:
  "extractPropertyCode (JStr s) =
     (if s = [] then None else map_option toUpperCase (match_code_prefix (trim s)))"
  by (auto simp: extractPropertyCode_def match_code_whole_after_prefix split: option.splits)

lemma extractPropertyCode_shape:
  assumes "extractPropertyCode p = Some code"
  shows "\<exists>c ds. code = c # ds \<and> is_letter c \<and> ds \<noteq> [] \<and> list_all is_digit ds"
proof -
  from assms obtain s where p: "p = JStr s"
    by (cases p) (auto simp: extractPropertyCode_def)
  with assms obtain g where g: "match_code_prefix (trim s) = Some g" and code: "code = toUpperCase g"
    by (auto simp: extractPropertyCode_JStr split: if_splits)
  from match_code_prefix_ascii[OF g] obtain c ds where
    "g = c # ds" "is_letter c" "ds \<noteq> []" "list_all is_digit ds" by blast
  with code show ?thesis
    by (auto simp: toUpperCase_Cons toUpperCase_digits upper_unit_letter)
qed

text \<open>
  Claim C5. For a string whose trimmed form starts with one letter and one or more
  digits, \<open>extractPropertyCode\<close> returns that letter in upper case and those digits,
  whatever follows them; for the empty string, for a value that is not a string and for
  a string whose trimmed form does not start with a letter and a digit it returns
  \<^verbatim>\<open>null\<close>.
\<close>

theorem extractPropertyCode_contract:
  "(trim s = c # ds @ rest \<and> is_letter c \<and> ds \<noteq> [] \<and> list_all is_digit ds \<and>
      (rest = [] \<or> \<not> is_digit (hd rest))
      \<longrightarrow> extractPropertyCode (JStr s) = Some (upper_unit c # ds)) \<and>
   (\<not> (\<exists>c d rest. trim s = c # d # rest \<and> is_letter c \<and> is_digit d)
      \<longrightarrow> extractPropertyCode (JStr s) = None) \<and>
   extractPropertyCode (JStr []) = None \<and>
   (\<not> is_string v \<longrightarrow> extractPropertyCode v = None)"
proof (intro conjI impI)
  assume a: "trim s = c # ds @ rest \<and> is_letter c \<and> ds \<noteq> [] \<and> list_all is_digit ds \<and>
      (rest = [] \<or> \<not> is_digit (hd rest))"
  then have ne: "s \<noteq> []" by (auto simp: trim_def)
  from a have "takeWhile is_digit (ds @ rest) = ds"
    using takeWhile_digits_run by blast
  with a have "match_code_prefix (trim s) = Some (c # ds)" by simp
  with a ne show "extractPropertyCode (JStr s) = Some (upper_unit c # ds)"
    by (simp add: extractPropertyCode_JStr toUpperCase_Cons toUpperCase_digits)
next
  assume "\<not> (\<exists>c d rest. trim s = c # d # rest \<and> is_letter c \<and> is_digit d)"
  then have "match_code_prefix (trim s) = None"
    by (simp only: match_code_prefix_None_iff not_False_eq_True)
  then show "extractPropertyCode (JStr s) = None"
    by (simp add: extractPropertyCode_JStr)
next
  show "extractPropertyCode (JStr []) = None" by (simp add: extractPropertyCode_def)
next
  assume "\<not> is_string v" then show "extractPropertyCode v = None"
    by (rule extractPropertyCode_nonstring)
qed

text \<open>
  The contract at \<^verbatim>\<open>"  p1234-x "\<close>, at \<^verbatim>\<open>"101 Maple"\<close> and at the number 7.
\<close>

theorem extractPropertyCode_contract_witness:
  "extractPropertyCode (JStr (utf16 ''  p1234-x '')) = Some (utf16 ''P1234'') \<and>
   extractPropertyCode (JStr (utf16 ''101 Maple'')) = None \<and>
   extractPropertyCode (JNum 7) = None"
  using extractPropertyCode_contract[where s = "utf16 ''  p1234-x ''" and c = "of_char CHR ''p''"
          and ds = "utf16 ''1234''" and rest = "utf16 ''-x''" and v = "JNum 7"]
        extractPropertyCode_contract[where s = "utf16 ''101 Maple''" and v = "JNum 7"]
  by (simp add: utf16_def trim_def is_space_def is_letter_def is_digit_def upper_unit_def)

subsection \<open>generateUID\<close>

lemma generateUID_nonstring: "\<not> is_string u \<Longrightarrow> generateUID p u = None"
  by (auto simp: generateUID_def split: option.splits)

lemma generateUID_JStr:
  "generateUID p (JStr u) =
     (case extractPropertyCode p of
        None \<Rightarrow> None
      | Some code \<Rightarrow> if u = [] then None else Some (code @ [underscore] @ remove_spaces u))"
  by (auto simp: generateUID_def remove_spaces_trim split: option.splits
           dest: extractPropertyCode_shape)

lemma generateUID_nonempty: "generateUID p u \<noteq> Some []"
  by (auto simp: generateUID_def split: option.splits jsval.splits)

lemmas evaluate_uid =
  generateUID_def extractPropertyCode_def isValidUID_def utf16_def trim_def remove_spaces_def
  toUpperCase_def upper_unit_def is_space_def is_letter_def is_digit_def is_alnum_def
  underscore_def

lemma generateUID_Maple_D2:
  "generateUID (JStr (utf16 ''S0002 - 101 Maple'')) (JStr (utf16 ''D2'')) = Some (utf16 ''S0002_D2'')"
  by (simp add: evaluate_uid)

lemma generateUID_Oak_1N:
  "generateUID (JStr (utf16 ''S0020 - Oak Plaza'')) (JStr (utf16 ''1 N'')) = Some (utf16 ''S0020_1N'')"
  by (simp add: evaluate_uid)

text \<open>
  Claim C6. \<open>generateUID\<close> returns \<^verbatim>\<open>null\<close> when no property code is extracted, when the
  unit label is not a string and when it is the empty string; in every other case it
  returns the code, an underscore and the unit label without its white space, the
  other characters as they are. The function is total: it has no exception to throw.
  The two examples of the specification are its last two conjuncts.
\<close>

theorem generateUID_contract:
  "(extractPropertyCode p = None \<longrightarrow> generateUID p u = None) \<and>
   (\<not> is_string u \<longrightarrow> generateUID p u = None) \<and>
   generateUID p (JStr []) = None \<and>
   (extractPropertyCode p = Some code \<and> s \<noteq> [] \<longrightarrow>
      generateUID p (JStr s) = Some (code @ [underscore] @ filter (\<lambda>c. \<not> is_space c) s)) \<and>
   generateUID (JStr (utf16 ''S0002 - 101 Maple'')) (JStr (utf16 ''D2'')) = Some (utf16 ''S0002_D2'') \<and>
   generateUID (JStr (utf16 ''S0020 - Oak Plaza'')) (JStr (utf16 ''1 N'')) = Some (utf16 ''S0020_1N'')"
proof (intro conjI impI)
  show "extractPropertyCode p = None \<Longrightarrow> generateUID p u = None"
    by (simp add: generateUID_def)
  show "\<not> is_string u \<Longrightarrow> generateUID p u = None"
    by (rule generateUID_nonstring)
  show "generateUID p (JStr []) = None"
    by (simp add: generateUID_JStr split: option.splits)
  show "extractPropertyCode p = Some code \<and> s \<noteq> [] \<Longrightarrow>
      generateUID p (JStr s) = Some (code @ [underscore] @ filter (\<lambda>c. \<not> is_space c) s)"
    by (simp add: generateUID_JStr remove_spaces_def)
  show "generateUID (JStr (utf16 ''S0002 - 101 Maple'')) (JStr (utf16 ''D2'')) = Some (utf16 ''S0002_D2'')"
    by (rule generateUID_Maple_D2)
  show "generateUID (JStr (utf16 ''S0020 - Oak Plaza'')) (JStr (utf16 ''1 N'')) = Some (utf16 ''S0020_1N'')"
    by (rule generateUID_Oak_1N)
qed

text \<open>
  The contract at the property label \<^verbatim>\<open>"p12 - Elm"\<close> with the unit labels \<^verbatim>\<open>" a 7 "\<close> and
  \<^verbatim>\<open>42\<close>, and at the property label \<^verbatim>\<open>"101 Maple"\<close>.
\<close>

theorem generateUID_contract_witness:
  "generateUID (JStr (utf16 ''p12 - Elm'')) (JStr (utf16 '' a 7 '')) = Some (utf16 ''P12_a7'') \<and>
   generateUID (JStr (utf16 ''p12 - Elm'')) (JNum 42) = None \<and>
   generateUID (JStr (utf16 ''101 Maple'')) (JStr (utf16 ''D2'')) = None"
proof -
  have code: "extractPropertyCode (JStr (utf16 ''p12 - Elm'')) = Some (utf16 ''P12'')"
    by (simp add: evaluate_uid)
  have none: "extractPropertyCode (JStr (utf16 ''101 Maple'')) = None"
    by (simp add: evaluate_uid)
  show ?thesis
    using generateUID_contract[where p = "JStr (utf16 ''p12 - Elm'')" and u = "JNum 42"
            and code = "utf16 ''P12''" and s = "utf16 '' a 7 ''"]
          generateUID_contract[where p = "JStr (utf16 ''101 Maple'')" and u = "JStr (utf16 ''D2'')"]
          code none
    by (simp add: utf16_def is_space_def underscore_def)
qed

subsection \<open>isValidUID on the identifiers of generateUID\<close>

lemma test_uid_pattern_built:
  assumes "is_letter c" "ds \<noteq> []" "list_all is_digit ds"
  shows "test_uid_pattern ((c # ds) @ [underscore] @ t) \<longleftrightarrow> t \<noteq> [] \<and> list_all is_alnum t"
proof -
  have run: "takeWhile is_digit (ds @ underscore # t) = ds"
    using assms(3) underscore_not_digit by (induction ds) auto
  have rest: "dropWhile is_digit (ds @ underscore # t) = underscore # t"
    using assms(3) underscore_not_digit by (induction ds) auto
  show ?thesis using assms by (simp add: run rest)
qed

text \<open>
  Claim C4, as the code has it. An identifier that \<open>generateUID\<close> returns is a letter,
  one or more digits, an underscore and the unit label without its white space; it is
  valid for \<open>isValidUID\<close> exactly when what is left of the unit label is not empty and
  holds ASCII letters and digits only.
\<close>

theorem generateUID_valid_iff:
  assumes "generateUID p (JStr u) = Some ident"
  shows "(\<exists>c ds. is_letter c \<and> ds \<noteq> [] \<and> list_all is_digit ds \<and>
            ident = (c # ds) @ [underscore] @ remove_spaces u) \<and>
         (isValidUID (JStr ident) \<longleftrightarrow>
            remove_spaces u \<noteq> [] \<and> list_all is_alnum (remove_spaces u))"
proof -
  from assms obtain code where code: "extractPropertyCode p = Some code"
    and ident: "ident = code @ [underscore] @ remove_spaces u"
    by (auto simp: generateUID_JStr split: option.splits if_splits)
  from extractPropertyCode_shape[OF code] obtain c ds where
    s: "code = c # ds" "is_letter c" "ds \<noteq> []" "list_all is_digit ds" by blast
  have "isValidUID (JStr ident) \<longleftrightarrow> test_uid_pattern ident"
    by (simp add: isValidUID_def ident s)
  also have "\<dots> \<longleftrightarrow> remove_spaces u \<noteq> [] \<and> list_all is_alnum (remove_spaces u)"
    unfolding ident s(1) using s(2-4) by (rule test_uid_pattern_built)
  finally show ?thesis using ident s by blast
qed

text \<open>The identifier of \<^verbatim>\<open>"S0020 - Oak Plaza"\<close> and \<^verbatim>\<open>"1 N"\<close> is valid.\<close>

theorem generateUID_valid_iff_witness:
  "generateUID (JStr (utf16 ''S0020 - Oak Plaza'')) (JStr (utf16 ''1 N'')) = Some (utf16 ''S0020_1N'') \<and>
   isValidUID (JStr (utf16 ''S0020_1N''))"
  using generateUID_valid_iff[OF generateUID_Oak_1N] generateUID_Oak_1N
  by (simp add: utf16_def remove_spaces_def is_space_def is_alnum_def is_letter_def is_digit_def
                underscore_def)

text \<open>
  Claim C4, as the specification has it, fails: the unit label \<^verbatim>\<open>"D-2"\<close> gives the
  identifier \<^verbatim>\<open>"S0002_D-2"\<close>, which \<open>isValidUID\<close> rejects.
\<close>

theorem generateUID_invalid_counterexample:
  "generateUID (JStr (utf16 ''S0002 - 101 Maple'')) (JStr (utf16 ''D-2'')) = Some (utf16 ''S0002_D-2'') \<and>
   \<not> isValidUID (JStr (utf16 ''S0002_D-2''))"
  by (simp add: evaluate_uid)

section \<open>Properties of addUIDsToRows\<close>

lemma truthy_uid_value: "truthy (uid_value (generateUID p u)) \<longleftrightarrow> generateUID p u \<noteq> None"
  using generateUID_nonempty[of p u] by (cases "generateUID p u") (auto simp: uid_value_def)

lemma annotate_row_eq:
  "annotate_row options row acc =
     acc\<lparr>rowsWithUIDs := rowsWithUIDs acc @ [annotate_one options row],
         successCount := successCount acc + (if derivation_fails options row then 0 else 1),
         failCount := failCount acc + (if derivation_fails options row then 1 else 0)\<rparr>"
proof (cases "derivation_fails options row")
  case True
  then show ?thesis
    by (simp add: annotate_row_def Let_def annotate_one_def derivation_fails_def uid_value_def)
next
  case False
  then have "truthy (uid_value (generateUID (get_prop row (propertyNameColumn options))
                                            (get_prop row (unitColumn options))))"
    by (simp add: truthy_uid_value derivation_fails_def)
  with False show ?thesis
    by (simp add: annotate_row_def Let_def annotate_one_def)
qed

lemma fold_annotate_row:
  "fold (annotate_row options) rows acc =
     acc\<lparr>rowsWithUIDs := rowsWithUIDs acc @ map (annotate_one options) rows,
         successCount := successCount acc + length (filter (\<lambda>r. \<not> derivation_fails options r) rows),
         failCount := failCount acc + length (filter (derivation_fails options) rows)\<rparr>"
  by (induction rows arbitrary: acc) (simp_all add: annotate_row_eq)

lemma addUIDsToRows_eq:
  "addUIDsToRows rows options =
     \<lparr>rowsWithUIDs = map (annotate_one options) rows,
      successCount = length (filter (\<lambda>r. \<not> derivation_fails options r) rows),
      failCount = length (filter (derivation_fails options) rows)\<rparr>"
  by (simp add: addUIDsToRows_def fold_annotate_row)

lemma annotate_one_failed:
  "derivation_fails options row \<Longrightarrow> annotate_one options row = row(uidColumn options \<mapsto> JNull)"
  by (simp add: annotate_one_def derivation_fails_def uid_value_def)

text \<open>
  Claim C7. For \<open>N\<close> rows of which \<open>K\<close> fail the derivation, \<open>addUIDsToRows\<close> emits \<open>N\<close>
  rows, the \<open>i\<close>-th of them being the \<open>i\<close>-th input row with its identifier, and a row
  that failed being emitted with \<^verbatim>\<open>null\<close> for its identifier; its counters end at
  \<open>N - K\<close> and \<open>K\<close>. The function is total: no row makes it raise.
\<close>

theorem addUIDsToRows_accounting:
  "length (rowsWithUIDs (addUIDsToRows rows options)) = length rows \<and>
   rowsWithUIDs (addUIDsToRows rows options) = map (annotate_one options) rows \<and>
   (derivation_fails options row \<longrightarrow>
      annotate_one options row = row(uidColumn options \<mapsto> JNull)) \<and>
   failCount (addUIDsToRows rows options) = length (filter (derivation_fails options) rows) \<and>
   successCount (addUIDsToRows rows options) =
     length rows - length (filter (derivation_fails options) rows)"
proof -
  have "length (filter (derivation_fails options) rows) +
        length (filter (\<lambda>r. \<not> derivation_fails options r) rows) = length rows"
    by (rule sum_length_filter_compl)
  then show ?thesis
    by (auto simp: addUIDsToRows_eq annotate_one_failed)
qed

text \<open>
  Claim C8. The row emitted for an input row has, in every column other than the
  identifier column, what the input row has there (nothing, where the input row has no
  such column); its identifier column holds the identifier or \<^verbatim>\<open>null\<close>.
\<close>

theorem addUIDsToRows_frame:
  assumes "i < length rows"
  shows "(column \<noteq> uidColumn options \<longrightarrow>
            (rowsWithUIDs (addUIDsToRows rows options) ! i) column = (rows ! i) column) \<and>
         (rowsWithUIDs (addUIDsToRows rows options) ! i) (uidColumn options) =
            Some (uid_value (generateUID (get_prop (rows ! i) (propertyNameColumn options))
                                         (get_prop (rows ! i) (unitColumn options))))"
  using assms by (simp add: addUIDsToRows_eq annotate_one_def)

lemmas evaluate_rows =
  no_options_def row_maple_def row_unlabelled_def propertyNameColumn_def unitColumn_def
  uidColumn_def get_prop_def uid_value_def annotate_one_def derivation_fails_def

lemma derivation_fails_unlabelled: "derivation_fails no_options row_unlabelled"
  by (simp add: evaluate_rows evaluate_uid)

lemma annotate_one_maple:
  "annotate_one no_options row_maple = row_maple(utf16 ''UID'' \<mapsto> JStr (utf16 ''S0002_D2''))"
  by (simp add: evaluate_rows evaluate_uid)

lemma derivation_succeeds_maple: "\<not> derivation_fails no_options row_maple"
  by (simp add: evaluate_rows evaluate_uid)

text \<open>The accounting of a row with a property code and a row without one.\<close>

theorem addUIDsToRows_accounting_witness:
  "rowsWithUIDs (addUIDsToRows [row_maple, row_unlabelled] no_options) =
     [row_maple(utf16 ''UID'' \<mapsto> JStr (utf16 ''S0002_D2'')),
      row_unlabelled(utf16 ''UID'' \<mapsto> JNull)] \<and>
   successCount (addUIDsToRows [row_maple, row_unlabelled] no_options) = 1 \<and>
   failCount (addUIDsToRows [row_maple, row_unlabelled] no_options) = 1"
  using addUIDsToRows_accounting[where rows = "[row_maple, row_unlabelled]"
          and options = no_options and row = row_unlabelled]
        derivation_fails_unlabelled derivation_succeeds_maple annotate_one_maple
  by (simp add: uidColumn_def no_options_def)

text \<open>The rent of the first row is kept, and the row gets its identifier.\<close>

theorem addUIDsToRows_frame_witness:
  "(rowsWithUIDs (addUIDsToRows [row_maple, row_unlabelled] no_options) ! 0) (utf16 ''Rent'') =
     Some (JStr (utf16 ''900'')) \<and>
   (rowsWithUIDs (addUIDsToRows [row_maple, row_unlabelled] no_options) ! 0) (utf16 ''UID'') =
     Some (JStr (utf16 ''S0002_D2''))"
proof -
  have uid: "generateUID (get_prop row_maple (propertyNameColumn no_options))
                        (get_prop row_maple (unitColumn no_options)) = Some (utf16 ''S0002_D2'')"
    by (simp add: evaluate_rows evaluate_uid)
  have rent: "row_maple (utf16 ''Rent'') = Some (JStr (utf16 ''900''))"
    by (simp add: row_maple_def utf16_def)
  have other: "utf16 ''Rent'' \<noteq> utf16 ''UID''"
    by (simp add: utf16_def)
  have col: "uidColumn no_options = utf16 ''UID''"
    by (simp add: uidColumn_def no_options_def)
  show ?thesis
    using addUIDsToRows_frame[where i = 0 and rows = "[row_maple, row_unlabelled]"
            and options = no_options and column = "utf16 ''Rent''"]
    by (simp add: uid rent other col uid_value_def)
qed


section \<open>Properties of upsertDocumentsWithUID, for every store\<close>

lemma try_upsert_counts:
  "try_upsert st src doc c w = (Inr c', w') \<Longrightarrow>
   c' = c\<lparr>inserted := inserted c + 1\<rparr> \<or> c' = c\<lparr>updated := updated c + 1\<rparr>"
  unfolding try_upsert_def
  by (auto split: if_splits prod.splits select_reply.splits option.splits list.splits sum.splits)

lemma upsert_document_Inl:
  "try_upsert st src doc c w = (Inl e, w') \<Longrightarrow>
   upsert_document st src doc (c, w) = (c\<lparr>failed := failed c + 1\<rparr>, w')"
  by (simp add: upsert_document_def)

lemma upsert_document_Inr:
  "try_upsert st src doc c w = (Inr c', w') \<Longrightarrow> upsert_document st src doc (c, w) = (c', w')"
  by (simp add: upsert_document_def)

text \<open>Each turn of the loop adds one to exactly one counter.\<close>

lemma upsert_document_cases:
  "\<exists>w'. upsert_document st src doc (c, w) = (c\<lparr>inserted := inserted c + 1\<rparr>, w') \<or>
        upsert_document st src doc (c, w) = (c\<lparr>updated := updated c + 1\<rparr>, w') \<or>
        upsert_document st src doc (c, w) = (c\<lparr>failed := failed c + 1\<rparr>, w')"
proof (cases "try_upsert st src doc c w")
  case (Pair r w')
  show ?thesis
  proof (cases r)
    case (Inl e)
    with Pair have "upsert_document st src doc (c, w) = (c\<lparr>failed := failed c + 1\<rparr>, w')"
      by (simp add: upsert_document_Inl)
    then show ?thesis by blast
  next
    case (Inr c')
    with Pair have "upsert_document st src doc (c, w) = (c', w')"
      by (simp add: upsert_document_Inr)
    with Pair Inr try_upsert_counts[of st src doc c w c' w'] show ?thesis
      by metis
  qed
qed

lemma upsert_document_total:
  "total (fst (upsert_document st src doc cw)) = total (fst cw) + 1"
proof (cases cw)
  case (Pair c w)
  from upsert_document_cases[of st src doc c w] show ?thesis
    unfolding Pair by (auto simp: total_def)
qed

lemma upsert_loop_total:
  "total (fst (upsert_loop st src ds cw)) = total (fst cw) + length ds"
  unfolding upsert_loop_def
  by (induction ds arbitrary: cw) (simp_all add: upsert_document_total)

lemma length_make_documents: "length (make_documents chunks embs src) = length chunks"
  by (simp add: make_documents_def)

lemma upsert_document_failed_mono:
  "failed (fst cw) \<le> failed (fst (upsert_document st src doc cw))"
proof (cases cw)
  case (Pair c w)
  from upsert_document_cases[of st src doc c w] show ?thesis
    unfolding Pair by auto
qed

lemma upsert_loop_failed_mono:
  "failed (fst cw) \<le> failed (fst (upsert_loop st src ds cw))"
  unfolding upsert_loop_def
proof (induction ds arbitrary: cw)
  case Nil
  show ?case by simp
next
  case (Cons d ds)
  have "failed (fst cw) \<le> failed (fst (upsert_document st src d cw))"
    by (rule upsert_document_failed_mono)
  also have "\<dots> \<le> failed (fst (fold (upsert_document st src) ds (upsert_document st src d cw)))"
    by (rule Cons.IH)
  finally show ?case by simp
qed

lemma upsert_loop_append:
  "upsert_loop st src (ds1 @ ds2) cw = upsert_loop st src ds2 (upsert_loop st src ds1 cw)"
  by (simp add: upsert_loop_def)

lemma upsert_loop_Cons:
  "upsert_loop st src (d # ds) cw = upsert_loop st src ds (upsert_document st src d cw)"
  by (simp add: upsert_loop_def)

text \<open>
  Claim C10. Whatever the store answers, the three counters that
  \<open>upsertDocumentsWithUID\<close> returns add up to the number of chunks.
\<close>

theorem upsert_counts_sum:
  "inserted (fst (upsertDocumentsWithUID st chunks embs src w)) +
   updated (fst (upsertDocumentsWithUID st chunks embs src w)) +
   failed (fst (upsertDocumentsWithUID st chunks embs src w)) = length chunks"
  using upsert_loop_total[of st src "make_documents chunks embs src"
          "(\<lparr>inserted = 0, updated = 0, failed = 0\<rparr>, w)"]
  by (simp add: upsertDocumentsWithUID_def total_def length_make_documents)

subsection \<open>Store errors end the try block, and nothing else does\<close>

lemma write_outcome_error: "write_error r \<longleftrightarrow> (\<exists>e. write_outcome r = Inl e)"
  by (auto simp: write_error_def write_outcome_def split: write_reply.splits option.splits)

lemma try_upsert_raises:
  assumes "lookup_or_write_fails st src doc w"
  shows "\<exists>e. fst (try_upsert st src doc c w) = Inl e"
proof (cases "truthy (uid doc)")
  case False
  with assms obtain e where "write_outcome (fst (insert_document st doc w)) = Inl e"
    by (auto simp: lookup_or_write_fails_def write_outcome_error)
  with False show ?thesis
    by (auto simp: try_upsert_def split: prod.splits)
next
  case True
  obtain r w1 where sel: "select_ids st (uid doc) src w = (r, w1)"
    by (cases "select_ids st (uid doc) src w")
  show ?thesis
  proof (cases "select_error r")
    case True
    with \<open>truthy (uid doc)\<close> sel show ?thesis
      by (auto simp: try_upsert_def select_error_def split: select_reply.splits option.splits)
  next
    case False
    then obtain existing where r: "r = SelectResolved existing None"
      by (cases r) (auto simp: select_error_def)
    show ?thesis
    proof (cases "\<exists>first others. existing = Some (first # others)")
      case True
      then obtain first others where ex: "existing = Some (first # others)" by blast
      obtain now w2 where dn: "date_now st w1 = (now, w2)" by (cases "date_now st w1")
      from assms \<open>truthy (uid doc)\<close> sel r ex dn False
      obtain e where "write_outcome (fst (update_id st (doc_changes doc now) first w2)) = Inl e"
        by (auto simp: lookup_or_write_fails_def write_outcome_error)
      with \<open>truthy (uid doc)\<close> sel r ex dn show ?thesis
        by (auto simp: try_upsert_def doc_changes_def split: prod.splits)
    next
      case none: False
      from assms \<open>truthy (uid doc)\<close> sel r none False
      obtain e where "write_outcome (fst (insert_document st doc w1)) = Inl e"
        by (auto simp: lookup_or_write_fails_def write_outcome_error
                 split: option.splits list.splits)
      with \<open>truthy (uid doc)\<close> sel r none show ?thesis
        by (auto simp: try_upsert_def split: prod.splits option.splits list.splits)
    qed
  qed
qed

lemma try_upsert_raises_only:
  assumes "fst (try_upsert st src doc c w) = Inl e"
  shows "lookup_or_write_fails st src doc w"
  using assms
  unfolding try_upsert_def lookup_or_write_fails_def select_error_def doc_changes_def
  by (auto simp: write_outcome_error
           split: if_splits prod.splits select_reply.splits option.splits list.splits sum.splits)

text \<open>
  Claim C3. Let the lookup or the write for one document get a store error (a rejected
  promise or an answer with an error in it, for the lookup, the update or the
  insertion), in the state the loop has reached before that document (counters \<open>c\<close>).
  Then the call is the loop over the documents that remain, run from \<open>c\<close> with one more
  failure and from the world the failed request has left: it returns counters, in
  which this failure is counted. The store is any store and the error any error.
\<close>

theorem upsert_error_contained:
  assumes docs: "make_documents chunks embs src = before @ doc # remaining"
    and reached: "upsert_loop st src before (\<lparr>inserted = 0, updated = 0, failed = 0\<rparr>, w) = (c, w1)"
    and error: "lookup_or_write_fails st src doc w1"
  shows "upsertDocumentsWithUID st chunks embs src w =
           upsert_loop st src remaining
             (c\<lparr>failed := failed c + 1\<rparr>, snd (try_upsert st src doc c w1)) \<and>
         failed c + 1 \<le> failed (fst (upsertDocumentsWithUID st chunks embs src w))"
proof -
  from try_upsert_raises[OF error, of c] obtain e where
    "fst (try_upsert st src doc c w1) = Inl e" by blast
  then have raised: "try_upsert st src doc c w1 = (Inl e, snd (try_upsert st src doc c w1))"
    by (simp add: prod_eq_iff)
  have step: "upsert_document st src doc (c, w1) =
                (c\<lparr>failed := failed c + 1\<rparr>, snd (try_upsert st src doc c w1))"
    using raised by (rule upsert_document_Inl)
  have run: "upsertDocumentsWithUID st chunks embs src w =
           upsert_loop st src remaining
             (c\<lparr>failed := failed c + 1\<rparr>, snd (try_upsert st src doc c w1))"
    by (simp add: upsertDocumentsWithUID_def docs upsert_loop_append upsert_loop_Cons reached step)
  have "failed (fst (c\<lparr>failed := failed c + 1\<rparr>, snd (try_upsert st src doc c w1)))
          \<le> failed (fst (upsert_loop st src remaining
                 (c\<lparr>failed := failed c + 1\<rparr>, snd (try_upsert st src doc c w1))))"
    by (rule upsert_loop_failed_mono)
  then have "failed c + 1 \<le> failed (fst (upsertDocumentsWithUID st chunks embs src w))"
    by (simp add: run)
  with run show ?thesis by simp
qed

lemmas evaluate_upsert =
  upsertDocumentsWithUID_def upsert_loop_def upsert_document_def try_upsert_def
  make_documents_def make_document_def chunk_uid_def at_index_def get_prop_def write_outcome_def
  units_vacancy_def db_select_def db_update_def db_insert_def begin_request_def matches_def
  metadata_uid_text_def new_record_def apply_changes_def enumerate_eq_zip pick_def coming_pick_def
  chunk_d2_def chunk_plain_def empty_table_def failing_once_def

text \<open>Two chunks, the lookup for the first of which fails.\<close>

theorem upsert_counts_sum_witness:
  "inserted (fst (upsertDocumentsWithUID units_vacancy [chunk_d2, chunk_plain] [7, 8] units_csv
                    failing_once)) +
   updated (fst (upsertDocumentsWithUID units_vacancy [chunk_d2, chunk_plain] [7, 8] units_csv
                    failing_once)) +
   failed (fst (upsertDocumentsWithUID units_vacancy [chunk_d2, chunk_plain] [7, 8] units_csv
                    failing_once)) = 2"
  using upsert_counts_sum[of units_vacancy "[chunk_d2, chunk_plain]" "[7, 8]" units_csv failing_once]
  by simp

lemmas evaluate_errors =
  lookup_or_write_fails_def select_error_def write_error_def doc_changes_def
  holding_d2_def holding_d2_rejecting_def units_csv_def utf16_def

text \<open>
  Two chunks each time, the first of which fails: its lookup is answered with an error;
  its insertion is (the chunk has no identifier); its update is rejected. The chunk is
  counted as failed, the second one is inserted, and the call returns the counters.
\<close>

theorem upsert_error_contained_witness:
  "lookup_or_write_fails units_vacancy units_csv (make_document [7, 8] units_csv (0, chunk_d2))
     failing_once \<and>
   fst (upsertDocumentsWithUID units_vacancy [chunk_d2, chunk_plain] [7, 8] units_csv failing_once) =
     \<lparr>inserted = 1, updated = 0, failed = 1\<rparr> \<and>
   lookup_or_write_fails units_vacancy units_csv (make_document [7, 8] units_csv (0, chunk_plain))
     failing_once \<and>
   fst (upsertDocumentsWithUID units_vacancy [chunk_plain, chunk_d2] [7, 8] units_csv failing_once) =
     \<lparr>inserted = 1, updated = 0, failed = 1\<rparr> \<and>
   lookup_or_write_fails units_vacancy units_csv (make_document [7, 8] units_csv (0, chunk_d2))
     holding_d2_rejecting \<and>
   fst (upsertDocumentsWithUID units_vacancy [chunk_d2, chunk_plain] [7, 8] units_csv
          holding_d2_rejecting) =
     \<lparr>inserted = 1, updated = 0, failed = 1\<rparr>"
proof -
  let ?z = "\<lparr>inserted = 0, updated = 0, failed = 0\<rparr>"
  let ?d2 = "make_document [7, 8] units_csv (0, chunk_d2)"
  let ?plain = "make_document [7, 8] units_csv (0, chunk_plain)"
  have docs: "make_documents [chunk_d2, chunk_plain] [7, 8] units_csv =
                [] @ ?d2 # [make_document [7, 8] units_csv (1, chunk_plain)]"
    and docs': "make_documents [chunk_plain, chunk_d2] [7, 8] units_csv =
                [] @ ?plain # [make_document [7, 8] units_csv (1, chunk_d2)]"
    by (simp_all add: make_documents_def enumerate_eq_zip)
  have reached: "upsert_loop units_vacancy units_csv [] (?z, w) = (?z, w)" for w :: "(unit, nat) world"
    by (simp add: upsert_loop_def)
  have lookup: "lookup_or_write_fails units_vacancy units_csv ?d2 failing_once"
    by (simp add: evaluate_upsert evaluate_errors)
  have insertion: "lookup_or_write_fails units_vacancy units_csv ?plain failing_once"
    by (simp add: evaluate_upsert evaluate_errors)
  have update: "lookup_or_write_fails units_vacancy units_csv ?d2 holding_d2_rejecting"
    by (simp add: evaluate_upsert evaluate_errors)
  have a: "fst (upsertDocumentsWithUID units_vacancy [chunk_d2, chunk_plain] [7, 8] units_csv
                  failing_once) = \<lparr>inserted = 1, updated = 0, failed = 1\<rparr>"
    using upsert_error_contained[OF docs reached lookup]
    by (simp add: evaluate_upsert evaluate_errors)
  have b: "fst (upsertDocumentsWithUID units_vacancy [chunk_plain, chunk_d2] [7, 8] units_csv
                  failing_once) = \<lparr>inserted = 1, updated = 0, failed = 1\<rparr>"
    using upsert_error_contained[OF docs' reached insertion]
    by (simp add: evaluate_upsert evaluate_errors)
  have c: "fst (upsertDocumentsWithUID units_vacancy [chunk_d2, chunk_plain] [7, 8] units_csv
                  holding_d2_rejecting) = \<lparr>inserted = 1, updated = 0, failed = 1\<rparr>"
    using upsert_error_contained[OF docs reached update]
    by (simp add: evaluate_upsert evaluate_errors)
  from lookup insertion update a b c show ?thesis by simp
qed

section \<open>Properties of upsertDocumentsWithUID on the table\<close>

subsection \<open>Requests that are served\<close>

lemma after_request_simps [simp]:
  "table (after_request w) = table w"
  "next_id (after_request w) = next_id w"
  "clock (after_request w) = clock w + 1"
  "faults (after_request w) = tl (faults w)"
  "picks (after_request w) = picks w"
  by (simp_all add: after_request_def)

lemma after_lookup_simps [simp]:
  "table (after_lookup w) = table w"
  "next_id (after_lookup w) = next_id w"
  "clock (after_lookup w) = clock w + 1"
  "faults (after_lookup w) = tl (faults w)"
  "picks (after_lookup w) = tl (picks w)"
  by (simp_all add: after_lookup_def)

lemma begin_request_served:
  "served (Suc n) w \<Longrightarrow> begin_request w = (None, after_request w)"
  by (cases "faults w") (auto simp: served_def begin_request_def after_request_def)

lemma served_after_request: "served (Suc n) w \<Longrightarrow> served n (after_request w)"
  by (cases "faults w") (auto simp: served_def)

lemma served_mono: "m \<le> n \<Longrightarrow> served n w \<Longrightarrow> served m w"
  unfolding served_def list_all_iff
  using set_take_subset_set_take[of m n "faults w"] by auto

lemma served_faults_cong: "faults w' = faults w \<Longrightarrow> served n w' = served n w"
  by (simp add: served_def)

lemma served_after_lookup: "served (Suc n) w \<Longrightarrow> served n (after_lookup w)"
  using served_after_request[of n w] served_faults_cong[of "after_lookup w" "after_request w" n]
  by simp

lemma served_after_two:
  assumes "served (Suc (Suc n)) w" "faults w' = tl (tl (faults w))"
  shows "served n w'"
proof -
  have "served n (after_request (after_request w))"
    using assms(1) by (intro served_after_request)
  then show ?thesis
    using assms(2) served_faults_cong[of w' "after_request (after_request w)" n] by simp
qed

lemma db_select_served:
  "served (Suc n) w \<Longrightarrow>
   db_select u src w =
     (SelectResolved
        (Some (map row_id (pick (coming_pick w) (filter (matches u src) (table w))))) None,
      after_lookup w)"
  by (simp add: db_select_def begin_request_served after_lookup_def coming_pick_def)

lemma db_insert_served:
  "served (Suc n) w \<Longrightarrow>
   db_insert doc w =
     (WriteResolved None,
      (after_request w)\<lparr>table := table w @ [new_record doc (next_id w) (clock w + 1)],
                        next_id := next_id w + 1\<rparr>)"
  by (simp add: db_insert_def begin_request_served)

lemma db_update_served:
  "served (Suc n) w \<Longrightarrow>
   db_update ch i w =
     (WriteResolved None,
      (after_request w)\<lparr>table :=
         map (\<lambda>r. if row_id r = i then apply_changes ch (clock w + 1) r else r) (table w)\<rparr>)"
  by (simp add: db_update_def begin_request_served)

lemma units_vacancy_simps [simp]:
  "select_ids units_vacancy = db_select"
  "update_id units_vacancy = db_update"
  "insert_document units_vacancy = db_insert"
  "date_now units_vacancy = (\<lambda>w. (clock w, w))"
  by (simp_all add: units_vacancy_def)

subsection \<open>The three branches\<close>

lemma try_upsert_no_uid:
  assumes "\<not> truthy (uid doc)" "served 1 w"
  shows "try_upsert units_vacancy src doc c w =
     (Inr (c\<lparr>inserted := inserted c + 1\<rparr>),
      (after_request w)\<lparr>table := table w @ [new_record doc (next_id w) (clock w + 1)],
                        next_id := next_id w + 1\<rparr>)"
  using assms by (simp add: try_upsert_def db_insert_served[of 0] write_outcome_def)

lemma try_upsert_absent:
  assumes "truthy (uid doc)" "served 2 w" "filter (matches (uid doc) src) (table w) = []"
  shows "try_upsert units_vacancy src doc c w =
     (Inr (c\<lparr>inserted := inserted c + 1\<rparr>),
      (after_request (after_lookup w))\<lparr>table :=
          table w @ [new_record doc (next_id w) (clock w + 2)], next_id := next_id w + 1\<rparr>)"
proof -
  have s1: "served (Suc 1) w" using assms(2) by (simp add: numeral_2_eq_2)
  have s2: "served (Suc 0) (after_lookup w)" using served_after_lookup[OF s1] by simp
  show ?thesis using assms(1,3)
    by (simp add: try_upsert_def db_select_served[OF s1] db_insert_served[OF s2] write_outcome_def
                  pick_def)
qed

lemma try_upsert_present:
  assumes "truthy (uid doc)" "served 2 w"
    and "filter (matches (uid doc) src) (table w) = ms" "ms \<noteq> []"
    and "r = ms ! (coming_pick w mod length ms)"
  shows "try_upsert units_vacancy src doc c w =
     (Inr (c\<lparr>updated := updated c + 1\<rparr>),
      (after_request (after_lookup w))\<lparr>table :=
          map (\<lambda>x. if row_id x = row_id r
                    then apply_changes (doc_changes doc (clock w + 1)) (clock w + 2) x else x)
              (table w)\<rparr>)"
proof -
  have s1: "served (Suc 1) w" using assms(2) by (simp add: numeral_2_eq_2)
  have s2: "served (Suc 0) (after_lookup w)" using served_after_lookup[OF s1] by simp
  show ?thesis using assms(1,3,4,5)
    by (simp add: try_upsert_def db_select_served[OF s1] db_update_served[OF s2] write_outcome_def
                  doc_changes_def pick_def)
qed

lemma apply_doc_changes: "apply_changes (doc_changes doc t1) t2 x = rewritten doc t2 x"
  by (simp add: apply_changes_def doc_changes_def rewritten_def)

lemma key_identifies:
  assumes "distinct (map row_id T)" "r \<in> set T" "x \<in> set T"
  shows "row_id x = row_id r \<longleftrightarrow> x = r"
  using assms by (auto simp: distinct_map dest: inj_onD)


text \<open>The record the lookup returns is one of those that match.\<close>

lemma picked_matches:
  assumes "filter P T = ms" "ms \<noteq> []"
  shows "ms ! (k mod length ms) \<in> set T \<and> P (ms ! (k mod length ms))"
proof -
  have "ms ! (k mod length ms) \<in> set ms" using assms(2) by simp
  with assms(1) show ?thesis by auto
qed

lemma insert_step:
  assumes "\<not> truthy (uid doc) \<or> filter (matches (uid doc) src) (table w) = []"
    and "served (Suc (Suc n)) w"
  shows "\<exists>w'. upsert_document units_vacancy src doc (c, w) = (c\<lparr>inserted := inserted c + 1\<rparr>, w') \<and>
           table w' = table w @ [new_record doc (next_id w) (clock w')] \<and>
           clock w < clock w' \<and> next_id w' = next_id w + 1 \<and> served n w'"
proof (cases "truthy (uid doc)")
  case False
  have s1: "served 1 w" using assms(2) by (rule served_mono[rotated]) simp
  have s: "served (Suc n) w" using assms(2) by (rule served_mono[rotated]) simp
  let ?w = "(after_request w)\<lparr>table := table w @ [new_record doc (next_id w) (clock w + 1)],
                        next_id := next_id w + 1\<rparr>"
  have "upsert_document units_vacancy src doc (c, w) = (c\<lparr>inserted := inserted c + 1\<rparr>, ?w)"
    by (rule upsert_document_Inr[OF try_upsert_no_uid[OF False s1]])
  moreover have "served n ?w"
    using served_after_request[OF s] served_faults_cong[of ?w "after_request w" n] by simp
  ultimately show ?thesis by (intro exI[of _ ?w]) simp
next
  case True
  with assms(1) have e: "filter (matches (uid doc) src) (table w) = []" by simp
  have s2: "served 2 w" using assms(2) by (rule served_mono[rotated]) simp
  let ?w = "(after_request (after_lookup w))\<lparr>table :=
              table w @ [new_record doc (next_id w) (clock w + 2)], next_id := next_id w + 1\<rparr>"
  have "upsert_document units_vacancy src doc (c, w) = (c\<lparr>inserted := inserted c + 1\<rparr>, ?w)"
    by (rule upsert_document_Inr[OF try_upsert_absent[OF True s2 e]])
  moreover have "served n ?w"
    by (rule served_after_two[OF assms(2)]) simp
  ultimately show ?thesis by (intro exI[of _ ?w]) simp
qed

lemma update_step:
  assumes "truthy (uid doc)"
    and "filter (matches (uid doc) src) (table w) = ms" "ms \<noteq> []"
    and "r = ms ! (coming_pick w mod length ms)"
    and "served (Suc (Suc n)) w"
  shows "\<exists>w'. upsert_document units_vacancy src doc (c, w) = (c\<lparr>updated := updated c + 1\<rparr>, w') \<and>
           table w' = map (\<lambda>x. if row_id x = row_id r then rewritten doc (clock w') x else x)
                          (table w) \<and>
           clock w < clock w' \<and> next_id w' = next_id w \<and> served n w'"
proof -
  have s2: "served 2 w" using assms(5) by (rule served_mono[rotated]) simp
  let ?w = "(after_request (after_lookup w))\<lparr>table :=
          map (\<lambda>x. if row_id x = row_id r
                    then apply_changes (doc_changes doc (clock w + 1)) (clock w + 2) x else x)
              (table w)\<rparr>"
  have "upsert_document units_vacancy src doc (c, w) = (c\<lparr>updated := updated c + 1\<rparr>, ?w)"
    by (rule upsert_document_Inr[OF try_upsert_present[OF assms(1) s2 assms(2,3,4)]])
  moreover have "served n ?w"
    by (rule served_after_two[OF assms(5)]) simp
  ultimately show ?thesis by (intro exI[of _ ?w]) (simp add: apply_doc_changes)
qed

subsection \<open>The documents of the loop\<close>

lemma truthy_chunk_uid: "truthy (chunk_uid ch) \<longleftrightarrow> chunk_uid ch \<noteq> JNull"
  by (auto simp: chunk_uid_def Let_def)



lemma chunk_uid_text:
  "chunk_uid ch \<noteq> JNull \<Longrightarrow>
   metadata_uid_text (chunk_metadata ch) = Some (js_text (chunk_uid ch))"
  by (cases "chunk_metadata ch")
     (auto simp: chunk_uid_def Let_def metadata_uid_text_def split: if_splits jsval.splits)

lemma make_document_simps [simp]:
  "uid (make_document embs src (i, ch)) = chunk_uid ch"
  "metadata (make_document embs src (i, ch)) = chunk_metadata ch"
  "source (make_document embs src (i, ch)) = src"
  "content (make_document embs src (i, ch)) = pageContent ch"
  "embedding (make_document embs src (i, ch)) = at_index embs i"
  by (simp_all add: make_document_def)



lemmas evaluate_holding =
  holding_d2_def new_record_def make_document_def chunk_uid_def chunk_d2_def get_prop_def
  at_index_def matches_def metadata_uid_text_def units_csv_def



subsection \<open>The same chunk twice\<close>

lemma upsert_single:
  "upsertDocumentsWithUID st [ch] embs src w =
     upsert_document st src (make_document embs src (0, ch))
       (\<lparr>inserted = 0, updated = 0, failed = 0\<rparr>, w)"
  by (simp add: upsertDocumentsWithUID_def make_documents_def upsert_loop_def)

lemma rewritten_simps [simp]:
  "row_id (rewritten doc t x) = row_id x"
  "source (rewritten doc t x) = source x"
  "rewritten doc t (rewritten doc t' x) = rewritten doc t x"
  "(rewritten doc t x)\<lparr>updated_at := t0\<rparr> = rewritten doc t0 x"
  by (simp_all add: rewritten_def split: option.splits)

lemma metadata_rewritten:
  "metadata doc = Some m \<Longrightarrow> metadata (rewritten doc t x) = Some m"
  by (simp add: rewritten_def)

lemma rewritten_new_record:
  "rewritten doc t (new_record doc i t') = (new_record doc i t')\<lparr>updated_at := t\<rparr>"
  by (simp add: rewritten_def new_record_def split: option.splits)

lemma matches_rewritten:
  assumes "metadata_uid_text (metadata doc) = Some (js_text u)"
  shows "matches u src (rewritten doc t x) \<longleftrightarrow> source x = src"
proof -
  from assms obtain m where "metadata doc = Some m"
    by (cases "metadata doc") (auto simp: metadata_uid_text_def)
  with assms show ?thesis by (simp add: matches_def metadata_rewritten)
qed

lemma matches_new_record:
  "metadata_uid_text (metadata doc) = Some (js_text u) \<Longrightarrow> source doc = src \<Longrightarrow>
   matches u src (new_record doc i t)"
  by (simp add: matches_def new_record_def)

lemma matches_source: "matches u src x \<Longrightarrow> source x = src"
  by (simp add: matches_def)

text \<open>Rewriting the record of one key keeps the matching records where they are.\<close>

lemma filter_matches_rewrite:
  assumes self: "metadata_uid_text (metadata doc) = Some (js_text u)"
    and d: "distinct (map row_id T)" and r: "r \<in> set T" and mr: "matches u src r"
  shows "filter (matches u src) (map (\<lambda>x. if row_id x = row_id r then rewritten doc t x else x) T)
         = map (\<lambda>x. if row_id x = row_id r then rewritten doc t x else x) (filter (matches u src) T)"
proof -
  let ?g = "\<lambda>x. if row_id x = row_id r then rewritten doc t x else x"
  have "\<And>x. x \<in> set T \<Longrightarrow> (matches u src \<circ> ?g) x = matches u src x"
    using key_identifies[OF d r] mr matches_source[OF mr] by (auto simp: matches_rewritten[OF self])
  then have "filter (matches u src \<circ> ?g) T = filter (matches u src) T"
    by (intro filter_cong) auto
  then show ?thesis by (simp add: filter_map)
qed

lemma rewrite_keeps_keys:
  "map row_id (map (\<lambda>x. if row_id x = i then rewritten doc t x else x) T) = map row_id T"
  by (induction T) auto

lemma rewrite_twice:
  "map (\<lambda>x. if row_id x = i then rewritten doc t2 x else x)
       (map (\<lambda>x. if row_id x = i then rewritten doc t1 x else x) T)
   = map (\<lambda>x. if row_id x = i then rewritten doc t2 x else x) T"
  by (induction T) auto

lemma rewrite_same_but_time:
  "map (\<lambda>x. x\<lparr>updated_at := 0\<rparr>) (map (\<lambda>x. if row_id x = i then rewritten doc t2 x else x) T)
   = map (\<lambda>x. x\<lparr>updated_at := 0\<rparr>) (map (\<lambda>x. if row_id x = i then rewritten doc t1 x else x) T)"
  by (induction T) auto

lemma rewrite_fresh_key:
  "list_all (\<lambda>x. row_id x < i) T \<Longrightarrow> map (\<lambda>x. if row_id x = i then f x else x) T = T"
  by (induction T) auto

text \<open>
  An update of a document of the loop, on a table with a primary key in order: the
  records that match are as many as before.
\<close>

lemma update_keeps_matches:
  assumes self: "metadata_uid_text (metadata doc) = Some (js_text (uid doc))"
    and t: "truthy (uid doc)"
    and d: "distinct (map row_id (table w))"
    and ms: "filter (matches (uid doc) src) (table w) = ms" "ms \<noteq> []"
    and ok: "served (Suc (Suc n)) w"
    and res: "upsert_document units_vacancy src doc (c, w) = (c', w')"
  shows "c' = c\<lparr>updated := updated c + 1\<rparr>"
    and "table w' = map (\<lambda>x. if row_id x = row_id (ms ! (coming_pick w mod length ms))
                              then rewritten doc (clock w') x else x) (table w)"
    and "filter (matches (uid doc) src) (table w') =
           map (\<lambda>x. if row_id x = row_id (ms ! (coming_pick w mod length ms))
                     then rewritten doc (clock w') x else x) ms"
    and "distinct (map row_id (table w'))" and "served n w'"
proof -
  let ?r = "ms ! (coming_pick w mod length ms)"
  have rin: "?r \<in> set (table w)" and mr: "matches (uid doc) src ?r"
    using picked_matches[OF ms, of "coming_pick w"] by simp_all
  from update_step[OF t ms refl ok, of c] res
  show c': "c' = c\<lparr>updated := updated c + 1\<rparr>"
    and T: "table w' = map (\<lambda>x. if row_id x = row_id ?r then rewritten doc (clock w') x else x)
                           (table w)"
    and s: "served n w'"
    by auto
  show "filter (matches (uid doc) src) (table w') =
           map (\<lambda>x. if row_id x = row_id ?r then rewritten doc (clock w') x else x) ms"
    unfolding T using filter_matches_rewrite[OF self d rin mr, of "clock w'"] ms(1) by simp
  show "distinct (map row_id (table w'))"
    unfolding T using d by (simp only: rewrite_keeps_keys)
qed

text \<open>
  Claim C1, as the code has it. A chunk with an identifier is upserted twice in a row,
  alone, under the same source and with the same embeddings, on a table whose primary
  key is in order and that serves the four requests. The second run counts one update
  and nothing else. The records for the source and the identifier are, after it, as
  many as before the first run, and one if there was none: the runs add a record only
  where there is none and never remove one. If the table held at most one such record
  before the first run, it holds exactly one after the second, and the table is then
  what it was after the first run but for times of update.
\<close>

theorem upsert_twice_idempotent:
  assumes ident: "chunk_uid ch \<noteq> JNull"
    and ok: "served 4 w" and keys: "keys_ok w"
    and run1: "upsertDocumentsWithUID units_vacancy [ch] embs src w = (c1, w1)"
    and run2: "upsertDocumentsWithUID units_vacancy [ch] embs src w1 = (c2, w2)"
  shows "c2 = \<lparr>inserted = 0, updated = 1, failed = 0\<rparr> \<and>
         length (filter (matches (chunk_uid ch) src) (table w2)) =
           max 1 (length (filter (matches (chunk_uid ch) src) (table w))) \<and>
         (length (filter (matches (chunk_uid ch) src) (table w)) \<le> 1 \<longrightarrow>
            length (filter (matches (chunk_uid ch) src) (table w2)) = 1 \<and>
            map (\<lambda>x. x\<lparr>updated_at := 0\<rparr>) (table w2) =
              map (\<lambda>x. x\<lparr>updated_at := 0\<rparr>) (table w1))"
proof -
  let ?doc = "make_document embs src (0, ch)"
  let ?u = "chunk_uid ch"
  let ?M = "matches ?u src"
  let ?z = "\<lparr>inserted = 0, updated = 0, failed = 0\<rparr>"
  have t: "truthy (uid ?doc)" using ident by (simp add: truthy_chunk_uid)
  have self: "metadata_uid_text (metadata ?doc) = Some (js_text (uid ?doc))"
    using chunk_uid_text[OF ident] by simp
  have ok1: "served (Suc (Suc 2)) w" using ok by (simp add: eval_nat_numeral)
  have d: "distinct (map row_id (table w))" and below: "list_all (\<lambda>x. row_id x < next_id w) (table w)"
    using keys by (simp_all add: keys_ok_def)
  from run1 have r1: "upsert_document units_vacancy src ?doc (?z, w) = (c1, w1)"
    by (simp add: upsert_single)
  from run2 have r2: "upsert_document units_vacancy src ?doc (?z, w1) = (c2, w2)"
    by (simp add: upsert_single)
  show ?thesis
  proof (cases "filter ?M (table w) = []")
    case True
    then have e: "\<not> truthy (uid ?doc) \<or> filter (matches (uid ?doc) src) (table w) = []" by simp
    from insert_step[OF e ok1, of ?z] r1 have
      T1: "table w1 = table w @ [new_record ?doc (next_id w) (clock w1)]" and s1: "served 2 w1"
      by auto
    let ?nr = "new_record ?doc (next_id w) (clock w1)"
    have mnr: "?M ?nr" using matches_new_record[OF self, of src] by simp
    have f1: "filter (matches (uid ?doc) src) (table w1) = [?nr]"
      using True mnr by (simp add: T1)
    have s1': "served (Suc (Suc 0)) w1" using s1 by (simp add: eval_nat_numeral)
    have pick: "?nr = [?nr] ! (coming_pick w1 mod length [?nr])" by simp
    from update_step[OF t f1 _ pick s1', of ?z] r2 have
      c2: "c2 = ?z\<lparr>updated := updated ?z + 1\<rparr>" and
      T2: "table w2 = map (\<lambda>x. if row_id x = row_id ?nr then rewritten ?doc (clock w2) x else x)
                          (table w1)"
      by auto
    have idnr: "row_id ?nr = next_id w" by (simp add: new_record_def)
    have T2': "table w2 = table w @ [?nr\<lparr>updated_at := clock w2\<rparr>]"
      unfolding T2 T1 idnr using rewrite_fresh_key[OF below]
      by (simp add: rewritten_new_record) (simp add: new_record_def)
    have m2: "?M (?nr\<lparr>updated_at := clock w2\<rparr>)" using mnr by (simp add: matches_def)
    have one: "length (filter ?M (table w2)) = 1" using True m2 by (simp add: T2')
    have same: "map (\<lambda>x. x\<lparr>updated_at := 0\<rparr>) (table w2) = map (\<lambda>x. x\<lparr>updated_at := 0\<rparr>) (table w1)"
      by (simp add: T2' T1)
    from one same c2 True show ?thesis by simp
  next
    case False
    obtain ms where ms: "filter (matches (uid ?doc) src) (table w) = ms" "ms \<noteq> []"
      using False by simp
    let ?r = "ms ! (coming_pick w mod length ms)"
    let ?g = "\<lambda>t x. if row_id x = row_id ?r then rewritten ?doc t x else x"
    have T1: "table w1 = map (?g (clock w1)) (table w)"
      and F1: "filter (matches (uid ?doc) src) (table w1) = map (?g (clock w1)) ms"
      and d1: "distinct (map row_id (table w1))" and s1: "served 2 w1"
      by (rule update_keeps_matches(2-5)[OF self t d ms ok1 r1])+
    have ne1: "map (?g (clock w1)) ms \<noteq> []" using ms(2) by simp
    have s1': "served (Suc (Suc 0)) w1" using s1 by (simp add: eval_nat_numeral)
    let ?r2 = "map (?g (clock w1)) ms ! (coming_pick w1 mod length (map (?g (clock w1)) ms))"
    have c2: "c2 = ?z\<lparr>updated := updated ?z + 1\<rparr>"
      and T2: "table w2 = map (\<lambda>x. if row_id x = row_id ?r2 then rewritten ?doc (clock w2) x else x)
                              (table w1)"
      and F2: "filter (matches (uid ?doc) src) (table w2) =
                 map (\<lambda>x. if row_id x = row_id ?r2 then rewritten ?doc (clock w2) x else x)
                     (map (?g (clock w1)) ms)"
      by (rule update_keeps_matches(1-3)[OF self t d1 F1 ne1 s1' r2])+
    have count: "length (filter ?M (table w2)) = length (filter ?M (table w))"
      using F2 ms(1) by simp
    have single: "map (\<lambda>x. x\<lparr>updated_at := 0\<rparr>) (table w2) =
                    map (\<lambda>x. x\<lparr>updated_at := 0\<rparr>) (table w1)"
      if "length (filter ?M (table w)) \<le> 1"
    proof -
      from that ms obtain r where r: "ms = [r]"
        by (cases ms) auto
      have key: "row_id ?r2 = row_id ?r" by (simp add: r)
      have "table w2 = map (?g (clock w2)) (table w)"
        unfolding T2 key T1 by (rule rewrite_twice)
      then show ?thesis unfolding T1 by (simp only: rewrite_same_but_time)
    qed
    have pos: "1 \<le> length (filter ?M (table w))"
      using False by (cases "filter ?M (table w)") simp_all
    then have most: "max 1 (length (filter ?M (table w))) = length (filter ?M (table w))"
      by simp
    from c2 count single pos show ?thesis unfolding most by auto
  qed
qed

text \<open>The chunk \<open>chunk_d2\<close>, twice, on the empty table.\<close>

theorem upsert_twice_idempotent_witness:
  "fst (upsertDocumentsWithUID units_vacancy [chunk_d2] [7] units_csv
          (snd (upsertDocumentsWithUID units_vacancy [chunk_d2] [7] units_csv empty_table))) =
     \<lparr>inserted = 0, updated = 1, failed = 0\<rparr> \<and>
   length (filter (matches (chunk_uid chunk_d2) units_csv)
     (table (snd (upsertDocumentsWithUID units_vacancy [chunk_d2] [7] units_csv
          (snd (upsertDocumentsWithUID units_vacancy [chunk_d2] [7] units_csv empty_table)))))) = 1 \<and>
   map (\<lambda>x. x\<lparr>updated_at := 0\<rparr>)
     (table (snd (upsertDocumentsWithUID units_vacancy [chunk_d2] [7] units_csv
          (snd (upsertDocumentsWithUID units_vacancy [chunk_d2] [7] units_csv empty_table))))) =
   map (\<lambda>x. x\<lparr>updated_at := 0\<rparr>)
     (table (snd (upsertDocumentsWithUID units_vacancy [chunk_d2] [7] units_csv empty_table)))"
proof -
  let ?run1 = "upsertDocumentsWithUID units_vacancy [chunk_d2] [7] units_csv empty_table"
  let ?run2 = "upsertDocumentsWithUID units_vacancy [chunk_d2] [7] units_csv (snd ?run1)"
  have ident: "chunk_uid chunk_d2 \<noteq> JNull"
    by (simp add: chunk_uid_def chunk_d2_def get_prop_def utf16_def)
  have ok: "served 4 empty_table" and keys: "keys_ok empty_table"
    by (simp_all add: served_def keys_ok_def empty_table_def)
  have run1: "?run1 = (fst ?run1, snd ?run1)" and run2: "?run2 = (fst ?run2, snd ?run2)"
    by simp_all
  have none: "length (filter (matches (chunk_uid chunk_d2) units_csv) (table empty_table)) \<le> 1"
    by (simp add: empty_table_def)
  from upsert_twice_idempotent[OF ident ok keys run1 run2] none show ?thesis
    by simp
qed

text \<open>
  Claim C1, as the specification has it, fails: on a table that holds two records for
  the source and the identifier, with its primary key in order and all requests
  served, the two runs leave two records, not one; and the second run, to whose
  lookup the database returns the other record, changes the embedding of that record,
  so that the table is not what it was after the first run.
\<close>

theorem upsert_twice_duplicates_counterexample:
  "chunk_uid chunk_d2 \<noteq> JNull \<and> served 4 holding_d2_twice \<and> keys_ok holding_d2_twice \<and>
   fst (upsertDocumentsWithUID units_vacancy [chunk_d2] [7] units_csv
          (snd (upsertDocumentsWithUID units_vacancy [chunk_d2] [7] units_csv holding_d2_twice))) =
     \<lparr>inserted = 0, updated = 1, failed = 0\<rparr> \<and>
   length (filter (matches (chunk_uid chunk_d2) units_csv)
     (table (snd (upsertDocumentsWithUID units_vacancy [chunk_d2] [7] units_csv
          (snd (upsertDocumentsWithUID units_vacancy [chunk_d2] [7] units_csv
                  holding_d2_twice)))))) = 2 \<and>
   map embedding
     (table (snd (upsertDocumentsWithUID units_vacancy [chunk_d2] [7] units_csv holding_d2_twice))) =
     [Some 7, Some 9] \<and>
   map embedding
     (table (snd (upsertDocumentsWithUID units_vacancy [chunk_d2] [7] units_csv
          (snd (upsertDocumentsWithUID units_vacancy [chunk_d2] [7] units_csv
                  holding_d2_twice))))) =
     [Some 7, Some 7]"
  by (simp add: evaluate_upsert evaluate_holding holding_d2_twice_def served_def keys_ok_def
                utf16_def)

section \<open>Properties of the requests to the embedding provider\<close>

text \<open>
  The loop of \<open>generateEmbeddings\<close> from any value \<open>i\<close> of its counter, against a provider
  that records its requests: it ends, each request it adds holds at most \<open>batchSize\<close>
  texts, and when no request fails the requests are the texts from \<open>i\<close> on, in order, and
  the result is the vectors so far followed by the answers.
\<close>

lemma embedding_loop_recording:
  assumes "0 < batchSize"
  shows "\<exists>r p' new.
           embedding_loop (recording E) chunks batchSize i acc (p, calls) =
             Some (r, (p', calls @ new)) \<and>
           list_all (\<lambda>c. length (fst c) \<le> batchSize) new \<and>
           (\<forall>vs. r = Inr vs \<longrightarrow>
              concat (map fst new) = map pageContent (drop i chunks) \<and>
              vs = acc @ concat (map (vectors \<circ> snd) new))"
proof (induction "length chunks - i" arbitrary: i acc p calls rule: less_induct)
  case less
  show ?case
  proof (cases "i < length chunks")
    case False
    then show ?thesis by (subst embedding_loop.simps) simp
  next
    case True
    let ?texts = "map pageContent (take batchSize (drop i chunks))"
    obtain r p1 where E: "E ?texts p = (r, p1)" by (cases "E ?texts p")
    show ?thesis
    proof (cases r)
      case (Inl e)
      have "embedding_loop (recording E) chunks batchSize i acc (p, calls)
              = Some (Inl e, (p1, calls @ [(?texts, Inl e)]))"
        using True E Inl by (subst embedding_loop.simps) (simp add: recording_def)
      then show ?thesis
        by (intro exI[of _ "Inl e"] exI[of _ p1] exI[of _ "[(?texts, Inl e)]"]) simp
    next
      case (Inr b)
      have lt: "length chunks - (i + batchSize) < length chunks - i"
        using True assms by simp
      from less[OF lt, of "acc @ b" p1 "calls @ [(?texts, Inr b)]"]
      obtain r' p' new where
        run: "embedding_loop (recording E) chunks batchSize (i + batchSize) (acc @ b)
                (p1, calls @ [(?texts, Inr b)]) =
              Some (r', (p', (calls @ [(?texts, Inr b)]) @ new))"
        and bound: "list_all (\<lambda>c. length (fst c) \<le> batchSize) new"
        and res: "\<forall>vs. r' = Inr vs \<longrightarrow>
              concat (map fst new) = map pageContent (drop (i + batchSize) chunks) \<and>
              vs = (acc @ b) @ concat (map (vectors \<circ> snd) new)"
        by blast
      have step: "embedding_loop (recording E) chunks batchSize i acc (p, calls)
              = Some (r', (p', calls @ ((?texts, Inr b) # new)))"
        using True E Inr run by (subst embedding_loop.simps) (simp add: recording_def)
      have split: "map pageContent (drop i chunks)
                   = ?texts @ map pageContent (drop (i + batchSize) chunks)"
        by (metis add.commute append_take_drop_id drop_drop map_append)
      show ?thesis
        using step bound res split
        by (intro exI[of _ r'] exI[of _ p'] exI[of _ "(?texts, Inr b) # new"])
           (auto simp: vectors_def)
    qed
  qed
qed

lemma default_batchSize_positive: "0 < default_batchSize"
  by (simp add: default_batchSize_def)

lemma processAndUpsertCSV_requests:
  "snd (fst (snd (processAndUpsertCSV_from_chunks st (recording E) chunks src ((p, calls), w)))) =
     calls @ [(map pageContent chunks, fst (E (map pageContent chunks) p))]"
  by (simp add: processAndUpsertCSV_from_chunks_def recording_def Let_def split: prod.splits sum.splits)

text \<open>
  Claim C9, as the code has it. \<open>generateEmbeddings\<close> with a batch size above 0 (50 at
  its one call) returns; each request it makes to the provider holds at most
  \<open>batchSize\<close> texts; when no request fails, the requests together are the texts of the
  chunks in their order and the result is the answers in the order of the requests.
  \<open>processAndUpsertCSV\<close> makes one request, which holds the texts of all its chunks.
\<close>

theorem embedding_requests:
  assumes "0 < batchSize"
  shows "(\<exists>r p' calls.
            generateEmbeddings (recording E) chunks batchSize (p, []) = Some (r, (p', calls)) \<and>
            list_all (\<lambda>c. length (fst c) \<le> batchSize) calls \<and>
            (\<forall>vs. r = Inr vs \<longrightarrow>
               concat (map fst calls) = map pageContent chunks \<and>
               vs = concat (map (vectors \<circ> snd) calls))) \<and>
         snd (fst (snd (processAndUpsertCSV_from_chunks st (recording E) chunks src ((p, []), w)))) =
           [(map pageContent chunks, fst (E (map pageContent chunks) p))]"
  using embedding_loop_recording[OF assms, of E chunks 0 "[]" p "[]"]
  by (simp add: generateEmbeddings_def processAndUpsertCSV_requests)

text \<open>
  Three chunks in batches of two: \<open>generateEmbeddings\<close> makes a request of two texts and a
  request of one, \<open>processAndUpsertCSV\<close> one request of three.
\<close>

theorem embedding_requests_witness:
  "generateEmbeddings (recording length_provider) [chunk_d2, chunk_plain, chunk_d2] 2 ((), []) =
     Some (Inr [8, 6, 8],
           ((), [([utf16 ''Unit: D2'', utf16 ''a note''], Inr [8, 6]),
                 ([utf16 ''Unit: D2''], Inr [8])])) \<and>
   snd (fst (snd (processAndUpsertCSV_from_chunks units_vacancy (recording length_provider)
                    [chunk_d2, chunk_plain, chunk_d2] units_csv (((), []), empty_table)))) =
     [([utf16 ''Unit: D2'', utf16 ''a note'', utf16 ''Unit: D2''], Inr [8, 6, 8])]"
proof -
  have batches:
    "generateEmbeddings (recording length_provider) [chunk_d2, chunk_plain, chunk_d2] 2 ((), []) =
       Some (Inr [8, 6, 8],
             ((), [([utf16 ''Unit: D2'', utf16 ''a note''], Inr [8, 6]),
                   ([utf16 ''Unit: D2''], Inr [8])]))"
    by (simp add: generateEmbeddings_def embedding_loop.simps recording_def length_provider_def
                  chunk_d2_def chunk_plain_def utf16_def)
  have pos: "0 < (2::nat)" by simp
  from embedding_requests[OF pos, of length_provider "[chunk_d2, chunk_plain, chunk_d2]" "()"
         units_vacancy units_csv empty_table]
  have "snd (fst (snd (processAndUpsertCSV_from_chunks units_vacancy (recording length_provider)
                    [chunk_d2, chunk_plain, chunk_d2] units_csv (((), []), empty_table)))) =
     [([utf16 ''Unit: D2'', utf16 ''a note'', utf16 ''Unit: D2''], Inr [8, 6, 8])]"
    by (simp add: length_provider_def chunk_d2_def chunk_plain_def utf16_def)
  with batches show ?thesis by simp
qed

text \<open>
  Claim C9, as the specification has it, fails: for 101 chunks \<open>processAndUpsertCSV\<close>
  makes one request to the provider, of 101 texts.
\<close>

theorem processAndUpsertCSV_unbounded_counterexample:
  "map length (map fst (snd (fst (snd
     (processAndUpsertCSV_from_chunks units_vacancy (recording length_provider) (replicate 101 chunk_plain)
        units_csv (((), []), empty_table)))))) = [101]"
  by (simp add: processAndUpsertCSV_requests)

end
